theory Spec2Isabelle
  imports Main "HOL-Library.Word"
begin

section \<open>Values, thrown objects and rules\<close>

text \<open>
  The library validates JavaScript values. The values of the model are \<open>undefined\<close>,
  \<open>null\<close>, booleans, numbers, strings, arrays of such values, functions and objects.

  \<^item> A number is an integer from \<open>-2^53\<close> to \<open>2^53 - 1\<close>, the signed value of a word of
    54 bits: each is exactly one double, its decimal digits are what the host prints, and
    the order of the integers is the order of the doubles. No arithmetic is done on
    numbers. Fractions, larger numbers, \<open>NaN\<close> and the infinities are outside the model.
  \<^item> A function is its source text, which is what it converts to as a string, and the
    number of its formal parameters, which is its \<open>length\<close>. It has no indexed
    properties.
  \<^item> An object stands for an object that is not an array or a function, has no property
    named \<open>length\<close> and converts to the string \<open>[object Object]\<close>, as object
    literals and \<open>Object.prototype\<close> do. The number tells objects apart. Objects with a
    \<open>length\<close> or a conversion of their own are outside the model.
\<close>

datatype jsval =
    JUndefined
  | JNull
  | JBool bool
  | JNum "54 word"
  | JStr string
  | JArr "jsval list"
  | JFunction string nat
  | JObject nat

text \<open>
  Every failure of the library is a thrown plain object \<open>{ field, message }\<close>. The
  host itself throws a \<open>TypeError\<close> when a property of \<open>undefined\<close> or \<open>null\<close>
  is read. The \<open>field\<close> of a thrown object is \<open>None\<close> when the property is
  \<open>undefined\<close>, which is what \<open>items\<close> produces from a caught \<open>TypeError\<close>.
\<close>

datatype exn =
    ValidationError "string option" string
  | TypeError string

text \<open>
  A rule is a closure \<open>(value, field) => { ... }\<close> whose return value is ignored: it
  returns normally or throws. A closure may have effects, so a rule transforms a state
  \<open>'st\<close> of the surrounding program. The rules that the library's own constraint methods
  create have no effect; they are embedded with \<open>pure_rule\<close>.
\<close>

type_synonym 'st rule = "jsval \<Rightarrow> string \<Rightarrow> 'st \<Rightarrow> (exn + unit) \<times> 'st"

definition pure_rule :: "(jsval \<Rightarrow> string \<Rightarrow> exn + unit) \<Rightarrow> 'st rule" where
  "pure_rule check value field s = (check value field, s)"

section \<open>BaseValidator\<close>

text \<open>
  The five classes differ in their \<open>validate\<close> method only (\<open>BooleanValidator\<close> and
  \<open>JSONValidator\<close> override it) and in the constraint methods they offer; \<open>kind\<close>
  records the class of the instance for the dynamic dispatch of \<open>validate\<close>. The
  property \<open>itemValidator\<close> of an \<open>ArrayValidator\<close> is written by \<open>items\<close> and
  read nowhere, so the record leaves it out.
\<close>

datatype kind = KString | KNumber | KBoolean | KArray | KJSON

record 'st validator =
  kind :: kind
  rules :: "'st rule list"
  isRequired :: bool

text \<open>\<open>this.rules.push(rule); return this;\<close>\<close>

definition push_rule :: "'st rule \<Rightarrow> 'st validator \<Rightarrow> 'st validator" where
  "push_rule r v = v\<lparr>rules := rules v @ [r]\<rparr>"

definition required_rule :: "jsval \<Rightarrow> string \<Rightarrow> exn + unit" where
  "required_rule value field =
     (if value = JUndefined \<or> value = JNull \<or> value = JStr ''''
      then Inl (ValidationError (Some field) ''Value is required'')
      else Inr ())"

definition required :: "'st validator \<Rightarrow> 'st validator" where
  "required v = push_rule (pure_rule required_rule) (v\<lparr>isRequired := True\<rparr>)"

text \<open>
  Every other constraint method pushes one rule in the same way. Those of
  \<open>NumberValidator\<close> (\<open>min\<close>, \<open>max\<close>) and of \<open>ArrayValidator\<close> are embedded
  below. \<open>oneOf\<close>, \<open>phone\<close> and the methods of \<open>StringValidator\<close> decide with the
  host's \<open>Array.includes\<close> and regular expressions; what they decide matters to no
  property proved here, and the theorems about \<open>validate\<close> hold for every list of rules,
  theirs included.
\<close>

text \<open>\<open>for (let rule of this.rules) { rule(value, field); }\<close>: a throw leaves the loop.\<close>

fun run_rules :: "'st rule list \<Rightarrow> jsval \<Rightarrow> string \<Rightarrow> 'st \<Rightarrow> (exn + unit) \<times> 'st" where
  "run_rules [] value field s = (Inr (), s)"
| "run_rules (rule # rest) value field s =
     (case rule value field s of
        (Inl e, s') \<Rightarrow> (Inl e, s')
      | (Inr _, s') \<Rightarrow> run_rules rest value field s')"

text \<open>
  \<open>validate\<close> returns \<open>undefined\<close> from the bare \<open>return;\<close> and \<open>true\<close> after the
  loop, so its result is a value.
\<close>

definition BaseValidator_validate ::
    "'st validator \<Rightarrow> jsval \<Rightarrow> string \<Rightarrow> 'st \<Rightarrow> (exn + jsval) \<times> 'st" where
  "BaseValidator_validate v value field s =
     (if value = JUndefined \<and> \<not> isRequired v then (Inr JUndefined, s)
      else case run_rules (rules v) value field s of
             (Inl e, s') \<Rightarrow> (Inl e, s')
           | (Inr _, s') \<Rightarrow> (Inr (JBool True), s'))"

section \<open>BooleanValidator and JSONValidator\<close>

text \<open>\<open>typeof value !== 'boolean'\<close>\<close>

fun is_boolean :: "jsval \<Rightarrow> bool" where
  "is_boolean (JBool b) = True"
| "is_boolean v = False"

definition BooleanValidator_validate ::
    "'st validator \<Rightarrow> jsval \<Rightarrow> string \<Rightarrow> 'st \<Rightarrow> (exn + jsval) \<times> 'st" where
  "BooleanValidator_validate v value field s =
     (if value = JUndefined \<and> \<not> isRequired v then (Inr JUndefined, s)
      else if \<not> is_boolean value
        then (Inl (ValidationError (Some field) ''Value must be a boolean''), s)
      else BaseValidator_validate v value field s)"

text \<open>
  \<open>JSON.parse\<close> belongs to the host, and \<open>validate\<close> discards what it returns. It
  is the parameter \<open>JSON_parses\<close>: whether \<open>JSON.parse(value)\<close> returns normally.
  The \<open>catch\<close> replaces whatever was thrown.
\<close>

definition JSONValidator_validate ::
    "(jsval \<Rightarrow> bool) \<Rightarrow> 'st validator \<Rightarrow> jsval \<Rightarrow> string \<Rightarrow> 'st
      \<Rightarrow> (exn + jsval) \<times> 'st" where
  "JSONValidator_validate JSON_parses v value field s =
     (if value = JUndefined \<and> \<not> isRequired v then (Inr JUndefined, s)
      else if \<not> JSON_parses value
        then (Inl (ValidationError (Some field) ''Invalid JSON format''), s)
      else BaseValidator_validate v value field s)"

text \<open>The call \<open>validator.validate(value, field)\<close>, dispatched on the class.\<close>

definition validate ::
    "(jsval \<Rightarrow> bool) \<Rightarrow> 'st validator \<Rightarrow> jsval \<Rightarrow> string \<Rightarrow> 'st
      \<Rightarrow> (exn + jsval) \<times> 'st" where
  "validate JSON_parses v value field s =
     (case kind v of
        KBoolean \<Rightarrow> BooleanValidator_validate v value field s
      | KJSON \<Rightarrow> JSONValidator_validate JSON_parses v value field s
      | _ \<Rightarrow> BaseValidator_validate v value field s)"

section \<open>Numbers in messages and field names\<close>

text \<open>
  The template literals \<open>`${field}[${i}]`\<close> and \<open>`... ${length} items`\<close> print a
  number in decimal.
\<close>

definition digit_char :: "nat \<Rightarrow> char" where
  "digit_char d = char_of (48 + d)"

function show_nat :: "nat \<Rightarrow> string" where
  "show_nat n = (if n < 10 then [digit_char n] else show_nat (n div 10) @ [digit_char (n mod 10)])"
  by pat_completeness auto
termination
  by (relation "measure (\<lambda>n. n)") auto

declare show_nat.simps [simp del]

definition show_int :: "int \<Rightarrow> string" where
  "show_int i = (if i < 0 then ''-'' @ show_nat (nat (- i)) else show_nat (nat i))"

text \<open>The text of a number of the model, which is below \<open>10^21\<close>: all its digits.\<close>

definition show_number :: "54 word \<Rightarrow> string" where
  "show_number n = show_int (sint n)"

section \<open>NumberValidator\<close>

text \<open>
  \<open>value < minValue\<close> and \<open>value > maxValue\<close> with a number on the right convert the
  left operand to a number: \<open>undefined\<close> gives \<open>NaN\<close> and every comparison with it is
  false, \<open>null\<close> gives 0, \<open>false\<close> and \<open>true\<close> give 0 and 1. An object converts
  to \<open>[object Object]\<close> and a function to its source text, which are not numerals and
  give \<open>NaN\<close>. A string or an array is converted by the host's numeric parser, whose
  results need not be integers: these two comparisons are the parameters \<open>host_lt\<close> and
  \<open>host_gt\<close>.
\<close>

fun js_lt :: "(jsval \<Rightarrow> 54 word \<Rightarrow> bool) \<Rightarrow> jsval \<Rightarrow> 54 word \<Rightarrow> bool" where
  "js_lt host_lt (JNum x) n = (sint x < sint n)"
| "js_lt host_lt JUndefined n = False"
| "js_lt host_lt JNull n = (0 < sint n)"
| "js_lt host_lt (JBool b) n = ((if b then 1 else 0) < sint n)"
| "js_lt host_lt (JFunction src arity) n = False"
| "js_lt host_lt (JObject ref) n = False"
| "js_lt host_lt v n = host_lt v n"

fun js_gt :: "(jsval \<Rightarrow> 54 word \<Rightarrow> bool) \<Rightarrow> jsval \<Rightarrow> 54 word \<Rightarrow> bool" where
  "js_gt host_gt (JNum x) n = (sint x > sint n)"
| "js_gt host_gt JUndefined n = False"
| "js_gt host_gt JNull n = (0 > sint n)"
| "js_gt host_gt (JBool b) n = ((if b then 1 else 0) > sint n)"
| "js_gt host_gt (JFunction src arity) n = False"
| "js_gt host_gt (JObject ref) n = False"
| "js_gt host_gt v n = host_gt v n"

definition min_rule :: "(jsval \<Rightarrow> 54 word \<Rightarrow> bool) \<Rightarrow> 54 word \<Rightarrow> jsval \<Rightarrow> string \<Rightarrow> exn + unit" where
  "min_rule host_lt minValue value field =
     (if js_lt host_lt value minValue
      then Inl (ValidationError (Some field)
                 (''Value must be greater than or equal to '' @ show_number minValue))
      else Inr ())"

definition NumberValidator_min ::
    "(jsval \<Rightarrow> 54 word \<Rightarrow> bool) \<Rightarrow> 54 word \<Rightarrow> 'st validator \<Rightarrow> 'st validator" where
  "NumberValidator_min host_lt minValue = push_rule (pure_rule (min_rule host_lt minValue))"

definition max_rule :: "(jsval \<Rightarrow> 54 word \<Rightarrow> bool) \<Rightarrow> 54 word \<Rightarrow> jsval \<Rightarrow> string \<Rightarrow> exn + unit" where
  "max_rule host_gt maxValue value field =
     (if js_gt host_gt value maxValue
      then Inl (ValidationError (Some field)
                 (''Value must be less than or equal to '' @ show_number maxValue))
      else Inr ())"

definition NumberValidator_max ::
    "(jsval \<Rightarrow> 54 word \<Rightarrow> bool) \<Rightarrow> 54 word \<Rightarrow> 'st validator \<Rightarrow> 'st validator" where
  "NumberValidator_max host_gt maxValue = push_rule (pure_rule (max_rule host_gt maxValue))"

section \<open>ArrayValidator\<close>

text \<open>
  \<open>value.length\<close> throws a \<open>TypeError\<close> on \<open>undefined\<close> and \<open>null\<close> (the message
  is Node's), is the number of elements of an array, of characters of a string and of
  formal parameters of a function, and is \<open>undefined\<close> on a number, a boolean and an
  object of the model. An array of the host has fewer than \<open>2^32\<close> elements, so its
  length is a number of the model.
\<close>

fun js_length :: "jsval \<Rightarrow> exn + jsval" where
  "js_length JUndefined =
     Inl (TypeError (''Cannot read properties of undefined (reading 'length')''))"
| "js_length JNull =
     Inl (TypeError (''Cannot read properties of null (reading 'length')''))"
| "js_length (JArr xs) = Inr (JNum (word_of_nat (length xs)))"
| "js_length (JStr cs) = Inr (JNum (word_of_nat (length cs)))"
| "js_length (JFunction src arity) = Inr (JNum (word_of_nat arity))"
| "js_length v = Inr JUndefined"

text \<open>
  The length that \<open>js_length\<close> returns is a number or \<open>undefined\<close>, so the comparisons
  of \<open>minLength\<close> and \<open>maxLength\<close> never reach the host's parser.
\<close>

definition minLength_rule :: "54 word \<Rightarrow> jsval \<Rightarrow> string \<Rightarrow> exn + unit" where
  "minLength_rule len value field =
     (case js_length value of
        Inl e \<Rightarrow> Inl e
      | Inr l \<Rightarrow>
          if js_lt (\<lambda>v n. False) l len
          then Inl (ValidationError (Some field)
                     (''Array must contain at least '' @ show_number len @ '' items''))
          else Inr ())"

definition ArrayValidator_minLength :: "54 word \<Rightarrow> 'st validator \<Rightarrow> 'st validator" where
  "ArrayValidator_minLength len = push_rule (pure_rule (minLength_rule len))"

definition maxLength_rule :: "54 word \<Rightarrow> jsval \<Rightarrow> string \<Rightarrow> exn + unit" where
  "maxLength_rule len value field =
     (case js_length value of
        Inl e \<Rightarrow> Inl e
      | Inr l \<Rightarrow>
          if js_gt (\<lambda>v n. False) l len
          then Inl (ValidationError (Some field)
                     (''Array must contain no more than '' @ show_number len @ '' items''))
          else Inr ())"

definition ArrayValidator_maxLength :: "54 word \<Rightarrow> 'st validator \<Rightarrow> 'st validator" where
  "ArrayValidator_maxLength len = push_rule (pure_rule (maxLength_rule len))"

text \<open>
  \<open>catch (error) { throw { field: error.field, message: error.message }; }\<close>: the
  properties \<open>error.field\<close> and \<open>error.message\<close> of what was caught. A
  \<open>TypeError\<close> has a message and no \<open>field\<close>.
\<close>

fun error_field :: "exn \<Rightarrow> string option" where
  "error_field (ValidationError f m) = f"
| "error_field (TypeError m) = None"

fun error_message :: "exn \<Rightarrow> string" where
  "error_message (ValidationError f m) = m"
| "error_message (TypeError m) = m"

definition rethrow :: "exn \<Rightarrow> exn" where
  "rethrow error = ValidationError (error_field error) (error_message error)"

text \<open>
  The loop \<open>for (let i = 0; i < value.length; i++)\<close> over the elements \<open>value[i]\<close>,
  here for a value with elements \<open>xs\<close>.
\<close>

function items_loop ::
    "(jsval \<Rightarrow> bool) \<Rightarrow> 'st validator \<Rightarrow> jsval list \<Rightarrow> string \<Rightarrow> nat \<Rightarrow> 'st
      \<Rightarrow> (exn + unit) \<times> 'st" where
  "items_loop JSON_parses validator xs field i s =
     (if i < length xs then
        (case validate JSON_parses validator (xs ! i) (field @ ''['' @ show_nat i @ '']'') s of
           (Inl error, s') \<Rightarrow> (Inl (rethrow error), s')
         | (Inr _, s') \<Rightarrow> items_loop JSON_parses validator xs field (Suc i) s')
      else (Inr (), s))"
  by pat_completeness auto
termination
  by (relation "measure (\<lambda>(JSON_parses, validator, xs, field, i, s). length xs - i)") auto

declare items_loop.simps [simp del]

text \<open>
  The rule of \<open>items\<close>. The elements of a string are its characters and those of a
  function are \<open>undefined\<close>, one for each formal parameter; a number, a boolean or an
  object of the model has no \<open>length\<close>, so the loop body never runs; on \<open>undefined\<close>
  and \<open>null\<close> the loop condition throws, outside the \<open>try\<close>. The closure holds the item
  validator object; the model takes the validator as it is when the rule runs, the chain of
  constraint methods being complete by then.
\<close>

fun items_rule ::
    "(jsval \<Rightarrow> bool) \<Rightarrow> 'st validator \<Rightarrow> 'st rule" where
  "items_rule JSON_parses validator (JArr xs) field s =
     items_loop JSON_parses validator xs field 0 s"
| "items_rule JSON_parses validator (JStr cs) field s =
     items_loop JSON_parses validator (map (\<lambda>c. JStr [c]) cs) field 0 s"
| "items_rule JSON_parses validator (JFunction src arity) field s =
     items_loop JSON_parses validator (replicate arity JUndefined) field 0 s"
| "items_rule JSON_parses validator JUndefined field s =
     (case js_length JUndefined of Inl e \<Rightarrow> (Inl e, s) | Inr l \<Rightarrow> (Inr (), s))"
| "items_rule JSON_parses validator JNull field s =
     (case js_length JNull of Inl e \<Rightarrow> (Inl e, s) | Inr l \<Rightarrow> (Inr (), s))"
| "items_rule JSON_parses validator v field s = (Inr (), s)"

definition ArrayValidator_items ::
    "(jsval \<Rightarrow> bool) \<Rightarrow> 'st validator \<Rightarrow> 'st validator \<Rightarrow> 'st validator" where
  "ArrayValidator_items JSON_parses validator = push_rule (items_rule JSON_parses validator)"

section \<open>Factory\<close>

definition Validator_string :: "'st validator" where
  "Validator_string = \<lparr>kind = KString, rules = [], isRequired = False\<rparr>"

definition Validator_number :: "'st validator" where
  "Validator_number = \<lparr>kind = KNumber, rules = [], isRequired = False\<rparr>"

definition Validator_boolean :: "'st validator" where
  "Validator_boolean = \<lparr>kind = KBoolean, rules = [], isRequired = False\<rparr>"

definition Validator_array :: "'st validator" where
  "Validator_array = \<lparr>kind = KArray, rules = [], isRequired = False\<rparr>"

definition Validator_json :: "'st validator" where
  "Validator_json = \<lparr>kind = KJSON, rules = [], isRequired = False\<rparr>"

section \<open>Schema\<close>

text \<open>
  A record to validate is an object. \<open>own\<close> lists its own enumerable properties in
  the order \<open>Object.keys\<close> enumerates them. \<open>inherited\<close> lists the other properties
  that \<open>key in data\<close> and \<open>data[key]\<close> find, nearest first: the own properties that
  are not enumerable, then those of the prototype chain.
\<close>

record jsobject =
  own :: "(string \<times> jsval) list"
  inherited :: "(string \<times> jsval) list"

definition Object_keys :: "jsobject \<Rightarrow> string list" where
  "Object_keys data = map fst (own data)"

definition key_in :: "string \<Rightarrow> jsobject \<Rightarrow> bool" where
  "key_in key data = (key \<in> set (map fst (own data)) \<or> key \<in> set (map fst (inherited data)))"

definition get_property :: "jsobject \<Rightarrow> string \<Rightarrow> jsval" where
  "get_property data key =
     (case map_of (own data) key of
        Some v \<Rightarrow> v
      | None \<Rightarrow> (case map_of (inherited data) key of Some v \<Rightarrow> v | None \<Rightarrow> JUndefined))"

text \<open>
  The properties of \<open>Object.prototype\<close>, which every object literal and every result of
  \<open>JSON.parse\<close> inherits: the methods with the number of their formal parameters, and
  the accessor \<open>__proto__\<close>, which returns \<open>Object.prototype\<close> itself.
\<close>

definition native :: "string \<Rightarrow> nat \<Rightarrow> string \<times> jsval" where
  "native name arity =
     (name, JFunction (''function '' @ name @ ''() { [native code] }'') arity)"

definition Object_prototype :: "(string \<times> jsval) list" where
  "Object_prototype =
     [(''constructor'', JFunction ''function Object() { [native code] }'' 1),
      native ''__defineGetter__'' 2,
      native ''__defineSetter__'' 2,
      native ''hasOwnProperty'' 1,
      native ''__lookupGetter__'' 1,
      native ''__lookupSetter__'' 1,
      native ''isPrototypeOf'' 1,
      native ''propertyIsEnumerable'' 1,
      native ''toString'' 0,
      native ''valueOf'' 0,
      (''__proto__'', JObject 0),
      native ''toLocaleString'' 0]"

text \<open>The object literal \<open>{k1: v1, ...}\<close>, its properties given in enumeration order.\<close>

definition plain_object :: "(string \<times> jsval) list \<Rightarrow> jsobject" where
  "plain_object properties = \<lparr>own = properties, inherited = Object_prototype\<rparr>"

text \<open>
  \<open>Object.entries(schema)\<close> enumerates the own properties of the schema definition:
  first the keys that are array indices (the decimal numerals without a leading zero, up
  to \<open>2^32 - 2\<close>) in ascending numeric order, then the other keys in the order the
  properties were created, which for an object literal is the order it declares them.
  \<open>this.schema\<close> is the \<open>Map\<close> built from these entries: the list of its entries
  in that order.
\<close>

definition digit_value :: "char \<Rightarrow> int" where
  "digit_value c = of_char c - 48"

definition numeral_value :: "string \<Rightarrow> int" where
  "numeral_value cs = foldl (\<lambda>n c. 10 * n + digit_value c) 0 cs"

definition is_array_index :: "string \<Rightarrow> bool" where
  "is_array_index key =
     (key \<noteq> [] \<and> list_all (\<lambda>c. c \<in> set ''0123456789'') key
       \<and> (key = ''0'' \<or> hd key \<noteq> CHR ''0'')
       \<and> length key \<le> 10 \<and> numeral_value key \<le> 4294967294)"

definition Object_entries :: "(string \<times> 'a) list \<Rightarrow> (string \<times> 'a) list" where
  "Object_entries properties =
     sort_key (\<lambda>(key, v). numeral_value key) (filter (\<lambda>(key, v). is_array_index key) properties)
       @ filter (\<lambda>(key, v). \<not> is_array_index key) properties"

record 'st Schema =
  schema :: "(string \<times> 'st validator) list"
  only :: bool

definition Validator_createSchema ::
    "(string \<times> 'st validator) list \<Rightarrow> bool \<Rightarrow> 'st Schema" where
  "Validator_createSchema schemaDefinition only_flag =
     \<lparr>schema = Object_entries schemaDefinition, only = only_flag\<rparr>"

text \<open>The first loop of \<open>Schema.validate\<close>, over \<open>this.schema.entries()\<close>.\<close>

fun check_required :: "(string \<times> 'st validator) list \<Rightarrow> jsobject \<Rightarrow> exn + unit" where
  "check_required [] data = Inr ()"
| "check_required ((key, validator) # rest) data =
     (if \<not> key_in key data \<and> isRequired validator
      then Inl (ValidationError (Some key) ''Field is required'')
      else check_required rest data)"

text \<open>
  The second loop, over \<open>schemaKeys\<close>, with \<open>this.schema.get(key)\<close> as a lookup in the
  entries. A key without an entry would make \<open>validator\<close> undefined and the call a
  \<open>TypeError\<close>; the keys come from the same map, so that branch is never taken.
\<close>

fun validate_fields ::
    "(jsval \<Rightarrow> bool) \<Rightarrow> (string \<times> 'st validator) list \<Rightarrow> string list \<Rightarrow> jsobject
      \<Rightarrow> 'st \<Rightarrow> (exn + unit) \<times> 'st" where
  "validate_fields JSON_parses entries [] data s = (Inr (), s)"
| "validate_fields JSON_parses entries (key # keys) data s =
     (if key_in key data then
        (case map_of entries key of
           None \<Rightarrow>
             (Inl (TypeError (''Cannot read properties of undefined (reading 'validate')'')), s)
         | Some validator \<Rightarrow>
             (case validate JSON_parses validator (get_property data key) key s of
                (Inl e, s') \<Rightarrow> (Inl e, s')
              | (Inr _, s') \<Rightarrow> validate_fields JSON_parses entries keys data s'))
      else validate_fields JSON_parses entries keys data s)"

definition Schema_validate ::
    "(jsval \<Rightarrow> bool) \<Rightarrow> 'st Schema \<Rightarrow> jsobject \<Rightarrow> 'st \<Rightarrow> (exn + string) \<times> 'st" where
  "Schema_validate JSON_parses S data s =
     (let schemaKeys = map fst (schema S);
          dataKeys = Object_keys data;
          extraFields = filter (\<lambda>key. key \<notin> set schemaKeys) dataKeys
      in if only S \<and> length extraFields > 0
         then (Inl (ValidationError (Some (hd extraFields))
                 (''Unexpected field '' @ [CHR 0x27] @ hd extraFields @ [CHR 0x27]
                    @ '' not defined in schema'')), s)
         else case check_required (schema S) data of
                Inl e \<Rightarrow> (Inl e, s)
              | Inr _ \<Rightarrow>
                  (case validate_fields JSON_parses (schema S) schemaKeys data s of
                     (Inl e, s') \<Rightarrow> (Inl e, s')
                   | (Inr _, s') \<Rightarrow> (Inr ''Validation successful'', s')))"

section \<open>The loops, as the specification words them\<close>

text \<open>
  The specification describes the rule of \<open>items\<close> as: for every element at index
  \<open>i\<close>, in order, invoke the item validator on the element under the field name
  \<open><fieldName>[<i>]\<close>; the first failure aborts. \<open>each_item\<close> follows these words,
  walking the elements from index \<open>i\<close> on.
\<close>

fun each_item ::
    "(jsval \<Rightarrow> bool) \<Rightarrow> 'st validator \<Rightarrow> string \<Rightarrow> nat \<Rightarrow> jsval list \<Rightarrow> 'st
      \<Rightarrow> (exn + unit) \<times> 'st" where
  "each_item JSON_parses validator field i [] s = (Inr (), s)"
| "each_item JSON_parses validator field i (x # xs) s =
     (case validate JSON_parses validator x (field @ ''['' @ show_nat i @ '']'') s of
        (Inl error, s') \<Rightarrow> (Inl (rethrow error), s')
      | (Inr _, s') \<Rightarrow> each_item JSON_parses validator field (Suc i) xs s')"

text \<open>
  The specification describes the last step of \<open>Schema.validate\<close> as: for every declared
  field present in the record, in declaration order, invoke that field's validator with
  the record's value and the field name; the first failure aborts. \<open>validate_present\<close>
  follows these words, walking the declared entries.
\<close>

fun validate_present ::
    "(jsval \<Rightarrow> bool) \<Rightarrow> (string \<times> 'st validator) list \<Rightarrow> jsobject \<Rightarrow> 'st
      \<Rightarrow> (exn + unit) \<times> 'st" where
  "validate_present JSON_parses [] data s = (Inr (), s)"
| "validate_present JSON_parses ((key, validator) # rest) data s =
     (if key_in key data then
        (case validate JSON_parses validator (get_property data key) key s of
           (Inl e, s') \<Rightarrow> (Inl e, s')
         | (Inr _, s') \<Rightarrow> validate_present JSON_parses rest data s')
      else validate_present JSON_parses rest data s)"

text \<open>
  The rules that the constraint methods \<open>required\<close>, \<open>min\<close> and \<open>max\<close> create
  throw \<open>{ field, message }\<close> with the \<open>field\<close> they were called with. This is the
  property of a rule that whatever it throws has that field.
\<close>

definition reports_given_field :: "'st rule \<Rightarrow> bool" where
  "reports_given_field r =
     (\<forall>value f s. case fst (r value f s) of Inl e \<Rightarrow> error_field e = Some f | Inr u \<Rightarrow> True)"

section \<open>The host's JSON.parse, for the examples\<close>

text \<open>
  The theorems below hold for every \<open>JSON_parses\<close>. The examples need one: this section
  models \<open>JSON.parse(value)\<close> of ECMAScript on the values of the model, as far as whether
  it returns normally. The argument is first converted to a string.
\<close>

fun js_ToString :: "jsval \<Rightarrow> string"
  and js_join :: "jsval list \<Rightarrow> string" where
  "js_ToString JUndefined = ''undefined''"
| "js_ToString JNull = ''null''"
| "js_ToString (JBool b) = (if b then ''true'' else ''false'')"
| "js_ToString (JNum n) = show_number n"
| "js_ToString (JStr cs) = cs"
| "js_ToString (JArr xs) = js_join xs"
| "js_ToString (JFunction src arity) = src"
| "js_ToString (JObject ref) = ''[object Object]''"
| "js_join [] = []"
| "js_join (x # xs) =
     (if x = JUndefined \<or> x = JNull then [] else js_ToString x)
       @ (if xs = [] then [] else '','' @ js_join xs)"

text \<open>
  The JSON grammar is recognised by an automaton that reads one character at a time
  and keeps the stack of the arrays and objects that are open.
\<close>

datatype json_open = InArray | InObject

datatype json_state =
    Value
  | ArrStart
  | ObjStart
  | ObjKey
  | Colon
  | Str bool
  | StrEsc bool
  | StrHex bool nat
  | Lit string
  | Minus
  | Zero
  | IntDigits
  | Dot
  | Frac
  | Exp
  | ExpSign
  | ExpDigits
  | After
  | Fail

definition json_ws :: "char \<Rightarrow> bool" where
  "json_ws c = (c = CHR '' '' \<or> c = CHR 0x09 \<or> c = CHR 0x0A \<or> c = CHR 0x0D)"

definition json_digit :: "char \<Rightarrow> bool" where
  "json_digit c = (c \<in> set ''0123456789'')"

definition json_hex :: "char \<Rightarrow> bool" where
  "json_hex c = (c \<in> set ''0123456789abcdefABCDEF'')"

definition json_control :: "char \<Rightarrow> bool" where
  "json_control c = (of_char c < (32 :: nat))"

fun json_after :: "json_open list \<Rightarrow> char \<Rightarrow> json_state \<times> json_open list" where
  "json_after stack c =
     (if json_ws c then (After, stack)
      else case stack of
        [] \<Rightarrow> (Fail, [])
      | InArray # rest \<Rightarrow>
          (if c = CHR '','' then (Value, stack)
           else if c = CHR '']'' then (After, rest)
           else (Fail, stack))
      | InObject # rest \<Rightarrow>
          (if c = CHR '','' then (ObjKey, stack)
           else if c = CHR ''}'' then (After, rest)
           else (Fail, stack)))"

fun json_value :: "json_open list \<Rightarrow> char \<Rightarrow> json_state \<times> json_open list" where
  "json_value stack c =
     (if c = CHR 0x22 then (Str False, stack)
      else if c = CHR ''{'' then (ObjStart, InObject # stack)
      else if c = CHR ''['' then (ArrStart, InArray # stack)
      else if c = CHR ''-'' then (Minus, stack)
      else if c = CHR ''0'' then (Zero, stack)
      else if json_digit c then (IntDigits, stack)
      else if c = CHR ''t'' then (Lit ''rue'', stack)
      else if c = CHR ''f'' then (Lit ''alse'', stack)
      else if c = CHR ''n'' then (Lit ''ull'', stack)
      else (Fail, stack))"

fun json_step :: "json_state \<times> json_open list \<Rightarrow> char \<Rightarrow> json_state \<times> json_open list" where
  "json_step (Value, stack) c =
     (if json_ws c then (Value, stack) else json_value stack c)"
| "json_step (ArrStart, stack) c =
     (if json_ws c then (ArrStart, stack)
      else if c = CHR '']'' then (After, tl stack)
      else json_value stack c)"
| "json_step (ObjStart, stack) c =
     (if json_ws c then (ObjStart, stack)
      else if c = CHR ''}'' then (After, tl stack)
      else if c = CHR 0x22 then (Str True, stack)
      else (Fail, stack))"
| "json_step (ObjKey, stack) c =
     (if json_ws c then (ObjKey, stack)
      else if c = CHR 0x22 then (Str True, stack)
      else (Fail, stack))"
| "json_step (Colon, stack) c =
     (if json_ws c then (Colon, stack)
      else if c = CHR '':'' then (Value, stack)
      else (Fail, stack))"
| "json_step (Str is_key, stack) c =
     (if c = CHR 0x22 then (if is_key then Colon else After, stack)
      else if c = CHR 0x5C then (StrEsc is_key, stack)
      else if json_control c then (Fail, stack)
      else (Str is_key, stack))"
| "json_step (StrEsc is_key, stack) c =
     (if c \<in> set [CHR 0x22, CHR 0x5C, CHR ''/'', CHR ''b'', CHR ''f'', CHR ''n'', CHR ''r'', CHR ''t'']
        then (Str is_key, stack)
      else if c = CHR ''u'' then (StrHex is_key 4, stack)
      else (Fail, stack))"
| "json_step (StrHex is_key n, stack) c =
     (if json_hex c then (if n \<le> 1 then Str is_key else StrHex is_key (n - 1), stack)
      else (Fail, stack))"
| "json_step (Lit rest, stack) c =
     (case rest of
        [] \<Rightarrow> (Fail, stack)
      | x # others \<Rightarrow>
          (if c = x then (if others = [] then After else Lit others, stack)
           else (Fail, stack)))"
| "json_step (Minus, stack) c =
     (if c = CHR ''0'' then (Zero, stack)
      else if json_digit c then (IntDigits, stack)
      else (Fail, stack))"
| "json_step (Zero, stack) c =
     (if c = CHR ''.'' then (Dot, stack)
      else if c = CHR ''e'' \<or> c = CHR ''E'' then (Exp, stack)
      else json_after stack c)"
| "json_step (IntDigits, stack) c =
     (if json_digit c then (IntDigits, stack)
      else if c = CHR ''.'' then (Dot, stack)
      else if c = CHR ''e'' \<or> c = CHR ''E'' then (Exp, stack)
      else json_after stack c)"
| "json_step (Dot, stack) c =
     (if json_digit c then (Frac, stack) else (Fail, stack))"
| "json_step (Frac, stack) c =
     (if json_digit c then (Frac, stack)
      else if c = CHR ''e'' \<or> c = CHR ''E'' then (Exp, stack)
      else json_after stack c)"
| "json_step (Exp, stack) c =
     (if c = CHR ''+'' \<or> c = CHR ''-'' then (ExpSign, stack)
      else if json_digit c then (ExpDigits, stack)
      else (Fail, stack))"
| "json_step (ExpSign, stack) c =
     (if json_digit c then (ExpDigits, stack) else (Fail, stack))"
| "json_step (ExpDigits, stack) c =
     (if json_digit c then (ExpDigits, stack) else json_after stack c)"
| "json_step (After, stack) c = json_after stack c"
| "json_step (Fail, stack) c = (Fail, stack)"

definition json_accepting :: "json_state \<times> json_open list \<Rightarrow> bool" where
  "json_accepting final =
     (snd final = [] \<and> fst final \<in> set [After, Zero, IntDigits, Frac, ExpDigits])"

definition JSON_text :: "string \<Rightarrow> bool" where
  "JSON_text cs = json_accepting (foldl json_step (Value, []) cs)"

definition host_JSON_parses :: "jsval \<Rightarrow> bool" where
  "host_JSON_parses value = JSON_text (js_ToString value)"

text \<open>
  On numbers the examples compare a number with a number only; \<open>no_coercion\<close> stands
  for the host's comparisons of strings and arrays, which they never reach.
\<close>

definition no_coercion :: "jsval \<Rightarrow> 54 word \<Rightarrow> bool" where
  "no_coercion v n = False"

text \<open>A rule with an effect, for examples: it counts its invocations and never throws.\<close>

definition counting_rule :: "nat rule" where
  "counting_rule value field n = (Inr (), Suc n)"

section \<open>Properties of the loops\<close>

lemma run_rules_append:
  "run_rules (pre @ post) value f s =
     (case run_rules pre value f s of
        (Inl e, s') \<Rightarrow> (Inl e, s')
      | (Inr u, s') \<Rightarrow> run_rules post value f s')"
  by (induction pre arbitrary: s) (auto split: prod.splits sum.splits)

lemma run_rules_stops:
  assumes "run_rules pre value f s = (Inr (), sa)" and "r value f sa = (Inl e, sb)"
  shows "run_rules (pre @ r # post) value f s = (Inl e, sb)"
  using assms by (simp add: run_rules_append)

lemma run_rules_error_source:
  "run_rules rs value f s = (Inl e, s') \<Longrightarrow> \<exists>r \<in> set rs. \<exists>t. fst (r value f t) = Inl e"
proof (induction rs arbitrary: s)
  case Nil
  then show ?case by simp
next
  case (Cons r rs)
  show ?case
  proof (cases "r value f s")
    case (Pair res t)
    show ?thesis
    proof (cases res)
      case (Inl e')
      with Pair Cons.prems have "fst (r value f s) = Inl e" by simp
      then show ?thesis by auto
    next
      case (Inr u)
      with Pair Cons.prems have "run_rules rs value f t = (Inl e, s')" by simp
      from Cons.IH[OF this] show ?thesis by auto
    qed
  qed
qed

lemma rules_push_all: "rules (foldl (\<lambda>v r. push_rule r v) v rs) = rules v @ rs"
  by (induction rs arbitrary: v) (simp_all add: push_rule_def)

lemma kind_push_all: "kind (foldl (\<lambda>v r. push_rule r v) v rs) = kind v"
  by (induction rs arbitrary: v) (simp_all add: push_rule_def)

lemma isRequired_push_all: "isRequired (foldl (\<lambda>v r. push_rule r v) v rs) = isRequired v"
  by (induction rs arbitrary: v) (simp_all add: push_rule_def)

text \<open>
  Once the value is not skipped and the check of the class has passed, every class runs
  the loop of \<open>BaseValidator.validate\<close>.
\<close>

lemma validate_passed_precheck:
  assumes "\<not> (value = JUndefined \<and> \<not> isRequired v)"
    and "kind v = KBoolean \<longrightarrow> is_boolean value"
    and "kind v = KJSON \<longrightarrow> JSON_parses value"
  shows "validate JSON_parses v value f s =
     (case run_rules (rules v) value f s of
        (Inl e, s') \<Rightarrow> (Inl e, s')
      | (Inr u, s') \<Rightarrow> (Inr (JBool True), s'))"
  using assms
  by (cases "kind v")
     (auto simp: validate_def BooleanValidator_validate_def JSONValidator_validate_def
        BaseValidator_validate_def)

lemma validate_skips:
  "\<not> isRequired v \<Longrightarrow> validate JSON_parses v JUndefined f s = (Inr JUndefined, s)"
  by (cases "kind v")
     (simp_all add: validate_def BooleanValidator_validate_def JSONValidator_validate_def
        BaseValidator_validate_def)

text \<open>The loop of \<open>items\<close> with its counter visits the elements as \<open>each_item\<close> does.\<close>

lemma items_loop_each_item:
  "i \<le> length xs \<Longrightarrow>
     items_loop P iv xs field i s = each_item P iv field i (drop i xs) s"
proof (induction P iv xs field i s rule: items_loop.induct)
  case (1 P iv xs field i s)
  show ?case
  proof (cases "i < length xs")
    case False
    with "1.prems" show ?thesis by (subst items_loop.simps) simp
  next
    case True
    then have d: "drop i xs = xs ! i # drop (Suc i) xs"
      by (simp add: Cons_nth_drop_Suc)
    obtain res t where v: "validate P iv (xs ! i) (field @ ''['' @ show_nat i @ '']'') s = (res, t)"
      by (cases "validate P iv (xs ! i) (field @ ''['' @ show_nat i @ '']'') s")
    show ?thesis
    proof (cases res)
      case (Inl e)
      with True v d show ?thesis by (subst items_loop.simps) simp
    next
      case (Inr u)
      from True have "Suc i \<le> length xs" by simp
      from "1.IH"[OF True v[symmetric] Inr this]
      have "items_loop P iv xs field (Suc i) t = each_item P iv field (Suc i) (drop (Suc i) xs) t" .
      with True v d Inr show ?thesis by (subst items_loop.simps) simp
    qed
  qed
qed

lemma each_item_append:
  "each_item P iv field i (pre @ post) s =
     (case each_item P iv field i pre s of
        (Inl e, s') \<Rightarrow> (Inl e, s')
      | (Inr u, s') \<Rightarrow> each_item P iv field (i + length pre) post s')"
  by (induction pre arbitrary: i s) (auto split: prod.splits sum.splits)

lemma check_required_find:
  "check_required entries data =
     (case find (\<lambda>(k, v). \<not> key_in k data \<and> isRequired v) entries of
        Some (k, v) \<Rightarrow> Inl (ValidationError (Some k) ''Field is required'')
      | None \<Rightarrow> Inr ())"
  by (induction entries data rule: check_required.induct) auto

text \<open>
  The keys of a \<open>Map\<close> are distinct, so \<open>this.schema.get(key)\<close> returns the validator
  declared under \<open>key\<close> and the second loop visits the entries as
  \<open>validate_present\<close> does.
\<close>

lemma validate_fields_suffix:
  "distinct (map fst (pre @ rest)) \<Longrightarrow>
     validate_fields P (pre @ rest) (map fst rest) data s = validate_present P rest data s"
proof (induction rest arbitrary: pre s)
  case Nil
  then show ?case by simp
next
  case (Cons kv rest)
  obtain k v where kv: "kv = (k, v)" by (cases kv)
  from Cons.prems kv have notin: "k \<notin> fst ` set pre" by auto
  then have look: "map_of (pre @ kv # rest) k = Some v"
    using kv by (simp add: map_add_def map_of_eq_None_iff[THEN iffD2] split: option.splits)
  from Cons.prems have "distinct (map fst ((pre @ [kv]) @ rest))" by simp
  from Cons.IH[OF this] have ih: "\<And>s. validate_fields P (pre @ kv # rest) (map fst rest) data s
      = validate_present P rest data s" by simp
  show ?case using kv look ih by (simp split: prod.splits sum.splits)
qed

lemma validate_fields_present:
  "distinct (map fst entries) \<Longrightarrow>
     validate_fields P entries (map fst entries) data s = validate_present P entries data s"
  using validate_fields_suffix[of "[]" entries] by simp

lemma validate_present_append:
  "validate_present P (pre @ post) data s =
     (case validate_present P pre data s of
        (Inl e, s') \<Rightarrow> (Inl e, s')
      | (Inr u, s') \<Rightarrow> validate_present P post data s')"
  by (induction pre arbitrary: s) (auto split: prod.splits sum.splits)

lemma check_required_cong:
  "\<forall>k \<in> fst ` set entries. key_in k d1 = key_in k d2 \<Longrightarrow>
     check_required entries d1 = check_required entries d2"
  by (induction entries d1 rule: check_required.induct) auto

lemma validate_fields_cong:
  "\<forall>k \<in> set keys. key_in k d1 = key_in k d2 \<and> get_property d1 k = get_property d2 k \<Longrightarrow>
     validate_fields P m keys d1 s = validate_fields P m keys d2 s"
  by (induction keys arbitrary: s) (auto split: option.splits prod.splits sum.splits)

text \<open>
  A validator whose rules throw with the field name they are given fails with that
  field name: the checks of the classes do so too.
\<close>

lemma validate_error_field:
  assumes "\<forall>r \<in> set (rules v). reports_given_field r"
    and "validate P v val f s = (Inl e, sa)"
  shows "error_field e = Some f"
proof -
  have from_rules: "error_field e = Some f" if "run_rules (rules v) val f s = (Inl e, t)" for t
  proof -
    from run_rules_error_source[OF that] obtain r u
      where "r \<in> set (rules v)" and "fst (r val f u) = Inl e" by blast
    with assms(1) show ?thesis
      by (auto simp: reports_given_field_def split: sum.splits)
  qed
  have base: "error_field e = Some f" if "BaseValidator_validate v val f s = (Inl e, sa)"
  proof -
    obtain res t where rr: "run_rules (rules v) val f s = (res, t)"
      by (cases "run_rules (rules v) val f s")
    with that have "res = Inl e"
      by (cases res) (auto simp: BaseValidator_validate_def split: if_splits)
    with rr from_rules show ?thesis by simp
  qed
  show ?thesis
  proof (cases "kind v")
    case KBoolean
    with assms(2) base show ?thesis
      by (auto simp: validate_def BooleanValidator_validate_def split: if_splits)
  next
    case KJSON
    with assms(2) base show ?thesis
      by (auto simp: validate_def JSONValidator_validate_def split: if_splits)
  next
    case KString
    with assms(2) base show ?thesis by (simp add: validate_def)
  next
    case KNumber
    with assms(2) base show ?thesis by (simp add: validate_def)
  next
    case KArray
    with assms(2) base show ?thesis by (simp add: validate_def)
  qed
qed

lemma library_rules_report:
  "reports_given_field (pure_rule required_rule)"
  "reports_given_field (pure_rule (min_rule host_lt minValue))"
  "reports_given_field (pure_rule (max_rule host_gt maxValue))"
  "reports_given_field counting_rule"
  by (simp_all add: reports_given_field_def pure_rule_def required_rule_def min_rule_def
        max_rule_def counting_rule_def)

lemma Object_entries_no_index:
  "list_all (\<lambda>(key, v). \<not> is_array_index key) properties \<Longrightarrow>
     Object_entries properties = properties"
proof -
  assume a: "list_all (\<lambda>(key, v). \<not> is_array_index key) properties"
  then have "filter (\<lambda>(key, v). is_array_index key) properties = []"
    by (auto simp: filter_empty_conv list_all_iff)
  moreover from a have "filter (\<lambda>(key, v). \<not> is_array_index key) properties = properties"
    by (auto simp: filter_id_conv list_all_iff)
  ultimately show ?thesis by (simp add: Object_entries_def)
qed

lemma Schema_validate_after_strict:
  assumes "only S \<longrightarrow> set (Object_keys data) \<subseteq> set (map fst (schema S))"
  shows "Schema_validate P S data s =
     (case check_required (schema S) data of
        Inl e \<Rightarrow> (Inl e, s)
      | Inr u \<Rightarrow>
          (case validate_fields P (schema S) (map fst (schema S)) data s of
             (Inl e, s') \<Rightarrow> (Inl e, s')
           | (Inr u, s') \<Rightarrow> (Inr ''Validation successful'', s')))"
proof -
  have "only S \<longrightarrow> filter (\<lambda>key. key \<notin> set (map fst (schema S))) (Object_keys data) = []"
    using assms by (auto simp: filter_empty_conv)
  then show ?thesis
    by (auto simp: Schema_validate_def Let_def)
qed

section \<open>The claims\<close>

subsection \<open>required()\<close>

text \<open>
  Claim C1, amended. Let \<open>required()\<close> be called on a validator that is not a
  \<open>BooleanValidator\<close>, followed by any further constraint methods, and let \<open>value\<close> be
  \<open>''\<close>, \<open>null\<close> or \<open>undefined\<close>. If every rule chained before \<open>required()\<close>
  accepts the value (there is none when \<open>required()\<close> is called first) and, for a
  \<open>JSONValidator\<close>, the value parses as JSON, then \<open>validate(value, f)\<close> fails with
  the field \<open>f\<close> and the message \<open>Value is required\<close>, and no later rule is run.
\<close>

theorem required_rejects_missing:
  assumes "val = JUndefined \<or> val = JNull \<or> val = JStr ''''"
    and "kind base \<noteq> KBoolean"
    and "kind base = KJSON \<longrightarrow> JSON_parses val"
    and "run_rules (rules base) val f s = (Inr (), sa)"
  shows "validate JSON_parses (foldl (\<lambda>v r. push_rule r v) (required base) later) val f s =
           (Inl (ValidationError (Some f) ''Value is required''), sa)"
proof -
  let ?v = "foldl (\<lambda>v r. push_rule r v) (required base) later"
  have k: "kind ?v = kind base"
    unfolding kind_push_all by (simp add: required_def push_rule_def)
  have q: "isRequired ?v"
    unfolding isRequired_push_all by (simp add: required_def push_rule_def)
  have r: "rules ?v = rules base @ pure_rule required_rule # later"
    unfolding rules_push_all by (simp add: required_def push_rule_def)
  have fails: "pure_rule required_rule val f sa =
      (Inl (ValidationError (Some f) ''Value is required''), sa)"
    using assms(1) by (auto simp: pure_rule_def required_rule_def)
  have "run_rules (rules ?v) val f s = (Inl (ValidationError (Some f) ''Value is required''), sa)"
    unfolding r using assms(4) fails by (rule run_rules_stops)
  moreover have "validate JSON_parses ?v val f s =
     (case run_rules (rules ?v) val f s of
        (Inl e, s') \<Rightarrow> (Inl e, s')
      | (Inr u, s') \<Rightarrow> (Inr (JBool True), s'))"
    using assms(1,2,3) q k by (intro validate_passed_precheck) auto
  ultimately show ?thesis by simp
qed

text \<open>
  \<open>string().required()\<close> on \<open>''\<close>, \<open>number().required().min(5)\<close> on \<open>undefined\<close>,
  and \<open>json().required()\<close> on \<open>null\<close>, which parses as JSON.
\<close>

theorem required_rejects_missing_witness:
  "validate host_JSON_parses (required Validator_string) (JStr '''') ''f'' ()
     = (Inl (ValidationError (Some ''f'') ''Value is required''), ())
 \<and> validate host_JSON_parses (NumberValidator_min no_coercion 5 (required Validator_number))
       JUndefined ''f'' ()
     = (Inl (ValidationError (Some ''f'') ''Value is required''), ())
 \<and> validate host_JSON_parses (required Validator_json) JNull ''f'' ()
     = (Inl (ValidationError (Some ''f'') ''Value is required''), ())"
proof -
  have a: "validate host_JSON_parses (required Validator_string) (JStr '''') ''f'' ()
     = (Inl (ValidationError (Some ''f'') ''Value is required''), ())"
    using required_rejects_missing[where val = "JStr ''''" and base = Validator_string
        and later = "[]" and JSON_parses = host_JSON_parses and f = "''f''" and s = "()"
        and sa = "()"]
    by (simp add: Validator_string_def)
  have b: "validate host_JSON_parses (NumberValidator_min no_coercion 5 (required Validator_number))
       JUndefined ''f'' ()
     = (Inl (ValidationError (Some ''f'') ''Value is required''), ())"
    using required_rejects_missing[where val = JUndefined and base = Validator_number
        and later = "[pure_rule (min_rule no_coercion 5)]"
        and JSON_parses = host_JSON_parses and f = "''f''" and s = "()" and sa = "()"]
    by (simp add: Validator_number_def NumberValidator_min_def)
  have p: "host_JSON_parses JNull"
    by (simp add: host_JSON_parses_def JSON_text_def json_accepting_def json_ws_def
          json_digit_def)
  have c: "validate host_JSON_parses (required Validator_json) JNull ''f'' ()
     = (Inl (ValidationError (Some ''f'') ''Value is required''), ())"
    using p required_rejects_missing[where val = JNull and base = Validator_json
        and later = "[]" and JSON_parses = host_JSON_parses and f = "''f''" and s = "()"
        and sa = "()"]
    by (simp add: Validator_json_def)
  from a b c show ?thesis by simp
qed

text \<open>
  The claim as stated fails on a \<open>BooleanValidator\<close>, whose type check comes before the
  rules, and on a \<open>JSONValidator\<close>, whose parse check does: \<open>boolean().required()\<close>
  rejects \<open>''\<close> with \<open>Value must be a boolean\<close>, and \<open>json().required()\<close> rejects
  \<open>''\<close> and \<open>undefined\<close> with \<open>Invalid JSON format\<close>.
\<close>

theorem required_message_counterexample:
  "validate host_JSON_parses (required Validator_boolean) (JStr '''') ''f'' ()
     = (Inl (ValidationError (Some ''f'') ''Value must be a boolean''), ())
 \<and> validate host_JSON_parses (required Validator_json) (JStr '''') ''f'' ()
     = (Inl (ValidationError (Some ''f'') ''Invalid JSON format''), ())
 \<and> validate host_JSON_parses (required Validator_json) JUndefined ''f'' ()
     = (Inl (ValidationError (Some ''f'') ''Invalid JSON format''), ())"
  by code_simp

subsection \<open>The skipped value\<close>

text \<open>
  Claim C2, amended. For every validator on which \<open>required()\<close> has not been called and
  every sequence of chained rules, \<open>validate(undefined, f)\<close> returns at once and runs no
  rule: the state of the program is unchanged. (\<open>null\<close> is not skipped.)
\<close>

theorem unset_optional_is_skipped:
  assumes "\<not> isRequired v"
  shows "validate JSON_parses v JUndefined f s = (Inr JUndefined, s)"
proof (cases "kind v")
  case KBoolean
  with assms show ?thesis
    by (simp add: validate_def BooleanValidator_validate_def)
next
  case KJSON
  with assms show ?thesis
    by (simp add: validate_def JSONValidator_validate_def)
next
  case KString
  with assms show ?thesis
    by (simp add: validate_def BaseValidator_validate_def)
next
  case KNumber
  with assms show ?thesis
    by (simp add: validate_def BaseValidator_validate_def)
next
  case KArray
  with assms show ?thesis
    by (simp add: validate_def BaseValidator_validate_def)
qed

text \<open>
  A validator with a counting rule: the counter stays at 0 on \<open>undefined\<close>, and the
  rule does run on a string.
\<close>

theorem unset_optional_is_skipped_witness:
  "\<not> isRequired (push_rule counting_rule Validator_string)
 \<and> validate host_JSON_parses (push_rule counting_rule Validator_string) JUndefined ''f'' 0
     = (Inr JUndefined, 0)
 \<and> validate host_JSON_parses (push_rule counting_rule Validator_boolean) JUndefined ''f'' 0
     = (Inr JUndefined, 0)
 \<and> validate host_JSON_parses (push_rule counting_rule Validator_json) JUndefined ''f'' 0
     = (Inr JUndefined, 0)
 \<and> validate host_JSON_parses (push_rule counting_rule Validator_string) (JStr ''x'') ''f'' 0
     = (Inr (JBool True), 1)"
proof -
  have n: "\<not> isRequired (push_rule counting_rule Validator_string)"
    "\<not> isRequired (push_rule counting_rule Validator_boolean)"
    "\<not> isRequired (push_rule counting_rule Validator_json)"
    by (simp_all add: push_rule_def Validator_string_def Validator_boolean_def Validator_json_def)
  have ran: "validate host_JSON_parses (push_rule counting_rule Validator_string) (JStr ''x'') ''f'' 0
     = (Inr (JBool True), 1)"
    by (simp add: validate_def BaseValidator_validate_def push_rule_def Validator_string_def
          counting_rule_def)
  from n ran
    unset_optional_is_skipped[OF n(1), of host_JSON_parses "''f''" 0]
    unset_optional_is_skipped[OF n(2), of host_JSON_parses "''f''" 0]
    unset_optional_is_skipped[OF n(3), of host_JSON_parses "''f''" 0]
  show ?thesis by simp
qed

text \<open>
  \<open>null\<close> is not skipped: \<open>boolean().validate(null, 'f')\<close> fails the type check, and
  \<open>number().min(1).validate(null, 'f')\<close> runs the rule, where \<open>null < 1\<close> holds.
\<close>

theorem null_is_not_skipped_counterexample:
  "\<not> isRequired (Validator_boolean :: unit validator)
 \<and> validate host_JSON_parses Validator_boolean JNull ''f'' ()
     = (Inl (ValidationError (Some ''f'') ''Value must be a boolean''), ())
 \<and> \<not> isRequired (NumberValidator_min no_coercion 1 Validator_number :: unit validator)
 \<and> validate host_JSON_parses (NumberValidator_min no_coercion 1 Validator_number) JNull ''f'' ()
     = (Inl (ValidationError (Some ''f'') ''Value must be greater than or equal to 1''), ())"
  by code_simp

subsection \<open>The checks of BooleanValidator and JSONValidator\<close>

text \<open>
  Claim C6. On a \<open>JSONValidator\<close> and a value that is not skipped, \<open>validate\<close>
  fails with \<open>Invalid JSON format\<close> and runs no rule when the value does not parse as JSON,
  and is the inherited \<open>validate\<close> on the same, unparsed value when it parses. So, when no
  rule of the validator throws that very error itself, \<open>validate\<close> fails with
  \<open>Invalid JSON format\<close> exactly when the value does not parse.
\<close>

theorem json_parse_check:
  assumes "kind v = KJSON" and "\<not> (val = JUndefined \<and> \<not> isRequired v)"
  shows "(\<not> JSON_parses val \<longrightarrow>
            validate JSON_parses v val f s =
              (Inl (ValidationError (Some f) ''Invalid JSON format''), s))
       \<and> (JSON_parses val \<longrightarrow>
            validate JSON_parses v val f s = BaseValidator_validate v val f s)
       \<and> ((\<forall>r \<in> set (rules v). \<forall>t.
               fst (r val f t) \<noteq> Inl (ValidationError (Some f) ''Invalid JSON format''))
            \<longrightarrow> (fst (validate JSON_parses v val f s)
                    = Inl (ValidationError (Some f) ''Invalid JSON format'')
                  \<longleftrightarrow> \<not> JSON_parses val))"
proof (intro conjI impI)
  assume "\<not> JSON_parses val"
  then show "validate JSON_parses v val f s =
              (Inl (ValidationError (Some f) ''Invalid JSON format''), s)"
    using assms by (simp add: validate_def JSONValidator_validate_def)
next
  assume "JSON_parses val"
  then show "validate JSON_parses v val f s = BaseValidator_validate v val f s"
    using assms by (auto simp: validate_def JSONValidator_validate_def)
next
  let ?e = "ValidationError (Some f) ''Invalid JSON format''"
  assume quiet: "\<forall>r \<in> set (rules v). \<forall>t. fst (r val f t) \<noteq> Inl ?e"
  show "fst (validate JSON_parses v val f s) = Inl ?e \<longleftrightarrow> \<not> JSON_parses val"
  proof (cases "JSON_parses val")
    case False
    then show ?thesis using assms by (simp add: validate_def JSONValidator_validate_def)
  next
    case True
    have "fst (BaseValidator_validate v val f s) \<noteq> Inl ?e"
    proof
      assume a: "fst (BaseValidator_validate v val f s) = Inl ?e"
      obtain res t where rr: "run_rules (rules v) val f s = (res, t)"
        by (cases "run_rules (rules v) val f s")
      with a assms(2) have "res = Inl ?e"
        by (cases res) (auto simp: BaseValidator_validate_def)
      with rr have "run_rules (rules v) val f s = (Inl ?e, t)" by simp
      from run_rules_error_source[OF this] quiet show False by blast
    qed
    with True assms show ?thesis by (auto simp: validate_def JSONValidator_validate_def)
  qed
qed

text \<open>
  \<open>json()\<close> with a counting rule: \<open>'{a:1}'\<close> does not parse and the counter stays at 0;
  \<open>'{"a":1}'\<close> parses and the rule runs on that string.
\<close>

theorem json_parse_check_witness:
  "validate host_JSON_parses (push_rule counting_rule Validator_json) (JStr ''{a:1}'') ''f'' 0
     = (Inl (ValidationError (Some ''f'') ''Invalid JSON format''), 0)
 \<and> validate host_JSON_parses (push_rule counting_rule Validator_json) (JStr ''{\"a\":1}'') ''f'' 0
     = (Inr (JBool True), 1)
 \<and> fst (validate host_JSON_parses (push_rule counting_rule Validator_json) (JStr ''{\"a\":1}'')
          ''f'' 0)
     \<noteq> Inl (ValidationError (Some ''f'') ''Invalid JSON format'')"
proof -
  let ?v = "push_rule counting_rule Validator_json"
  have k: "kind ?v = KJSON" by (simp add: push_rule_def Validator_json_def)
  have bad: "\<not> host_JSON_parses (JStr ''{a:1}'')" by code_simp
  have good: "host_JSON_parses (JStr ''{\"a\":1}'')" by code_simp
  have quiet: "\<forall>r \<in> set (rules ?v). \<forall>t.
      fst (r (JStr ''{\"a\":1}'') ''f'' t) \<noteq> Inl (ValidationError (Some ''f'') ''Invalid JSON format'')"
    by (simp add: push_rule_def Validator_json_def counting_rule_def)
  have base: "BaseValidator_validate ?v (JStr ''{\"a\":1}'') ''f'' 0 = (Inr (JBool True), 1)"
    by (simp add: BaseValidator_validate_def push_rule_def Validator_json_def counting_rule_def)
  from json_parse_check[where v = "?v" and val = "JStr ''{a:1}''" and JSON_parses = host_JSON_parses
      and f = "''f''" and s = 0] k bad
  have a: "validate host_JSON_parses ?v (JStr ''{a:1}'') ''f'' 0
     = (Inl (ValidationError (Some ''f'') ''Invalid JSON format''), 0)"
    by simp
  from json_parse_check[where v = "?v" and val = "JStr ''{\"a\":1}''"
      and JSON_parses = host_JSON_parses and f = "''f''" and s = 0] k good quiet base
  have b: "validate host_JSON_parses ?v (JStr ''{\"a\":1}'') ''f'' 0 = (Inr (JBool True), 1)"
    and c: "fst (validate host_JSON_parses ?v (JStr ''{\"a\":1}'') ''f'' 0)
     \<noteq> Inl (ValidationError (Some ''f'') ''Invalid JSON format'')"
    by simp_all
  from a b c show ?thesis by simp
qed

text \<open>
  Claim C7. On a \<open>BooleanValidator\<close> and a value that is not skipped, \<open>validate\<close>
  fails with \<open>Value must be a boolean\<close> for every value that is not a boolean, whatever
  the rules, and runs none of them; on a boolean it is the inherited \<open>validate\<close>.
\<close>

theorem boolean_type_check:
  assumes "kind v = KBoolean" and "\<not> (val = JUndefined \<and> \<not> isRequired v)"
  shows "(\<not> is_boolean val \<longrightarrow>
            validate JSON_parses v val f s =
              (Inl (ValidationError (Some f) ''Value must be a boolean''), s))
       \<and> (is_boolean val \<longrightarrow>
            validate JSON_parses v val f s = BaseValidator_validate v val f s)"
  using assms by (auto simp: validate_def BooleanValidator_validate_def)

text \<open>
  \<open>boolean()\<close> with a counting rule: the string \<open>"true"\<close> fails the type check and the
  counter stays at 0; \<open>true\<close> passes it and the rule runs.
\<close>

theorem boolean_type_check_witness:
  "validate host_JSON_parses (push_rule counting_rule Validator_boolean) (JStr ''true'') ''f'' 0
     = (Inl (ValidationError (Some ''f'') ''Value must be a boolean''), 0)
 \<and> validate host_JSON_parses (push_rule counting_rule Validator_boolean) (JBool True) ''f'' 0
     = (Inr (JBool True), 1)"
proof -
  let ?v = "push_rule counting_rule Validator_boolean"
  have k: "kind ?v = KBoolean" by (simp add: push_rule_def Validator_boolean_def)
  have base: "BaseValidator_validate ?v (JBool True) ''f'' 0 = (Inr (JBool True), 1)"
    by (simp add: BaseValidator_validate_def push_rule_def Validator_boolean_def
          counting_rule_def)
  from boolean_type_check[where v = "?v" and val = "JStr ''true''"
      and JSON_parses = host_JSON_parses and f = "''f''" and s = 0] k
  have a: "validate host_JSON_parses ?v (JStr ''true'') ''f'' 0
     = (Inl (ValidationError (Some ''f'') ''Value must be a boolean''), 0)"
    by simp
  from boolean_type_check[where v = "?v" and val = "JBool True"
      and JSON_parses = host_JSON_parses and f = "''f''" and s = 0] k base
  have b: "validate host_JSON_parses ?v (JBool True) ''f'' 0 = (Inr (JBool True), 1)"
    by simp
  from a b show ?thesis by simp
qed

subsection \<open>The order of the rules\<close>

text \<open>
  Claim C8, amended. A constraint method appends its rule to the rules. For every
  validator and every value that is not skipped and that passes the check of the class
  (the type check of a \<open>BooleanValidator\<close>, the parse check of a \<open>JSONValidator\<close>;
  the other classes have none), \<open>validate\<close> runs the rules in that order: when the rules
  before \<open>r\<close> pass and \<open>r\<close> throws, \<open>validate\<close> throws what \<open>r\<close> threw, in the
  state \<open>r\<close> left, so no later rule is run; when all rules pass, \<open>validate\<close> returns
  \<open>true\<close>.
\<close>

theorem rules_run_in_order:
  assumes "\<not> (val = JUndefined \<and> \<not> isRequired v)"
    and "kind v = KBoolean \<longrightarrow> is_boolean val"
    and "kind v = KJSON \<longrightarrow> JSON_parses val"
  shows "rules (push_rule new_rule v) = rules v @ [new_rule]
       \<and> (rules v = pre @ r # post \<and> run_rules pre val f s = (Inr (), sa)
              \<and> r val f sa = (Inl e, sb)
            \<longrightarrow> validate JSON_parses v val f s = (Inl e, sb))
       \<and> (run_rules (rules v) val f s = (Inr (), sc)
            \<longrightarrow> validate JSON_parses v val f s = (Inr (JBool True), sc))"
proof (intro conjI impI)
  show "rules (push_rule new_rule v) = rules v @ [new_rule]" by (simp add: push_rule_def)
next
  assume a: "rules v = pre @ r # post \<and> run_rules pre val f s = (Inr (), sa)
              \<and> r val f sa = (Inl e, sb)"
  then have "run_rules (rules v) val f s = (Inl e, sb)"
    by (simp add: run_rules_stops)
  then show "validate JSON_parses v val f s = (Inl e, sb)"
    using assms validate_passed_precheck[of val v JSON_parses f s] by simp
next
  assume "run_rules (rules v) val f s = (Inr (), sc)"
  then show "validate JSON_parses v val f s = (Inr (JBool True), sc)"
    using assms validate_passed_precheck[of val v JSON_parses f s] by simp
qed

text \<open>
  \<open>array().items(number().min(0)).maxLength(2)\<close>: on \<open>[1, -1, 2]\<close> the item error is
  reported, not the length error; on \<open>[1, 2, 3]\<close> the items pass and the length error
  is reported; \<open>[1, 2]\<close> passes.
\<close>

theorem rules_run_in_order_witness:
  "validate host_JSON_parses
     (ArrayValidator_maxLength 2
       (ArrayValidator_items host_JSON_parses (NumberValidator_min no_coercion 0 Validator_number)
         Validator_array))
     (JArr [JNum 1, JNum (- 1), JNum 2]) ''name'' ()
     = (Inl (ValidationError (Some ''name[1]'') ''Value must be greater than or equal to 0''), ())
 \<and> validate host_JSON_parses
     (ArrayValidator_maxLength 2
       (ArrayValidator_items host_JSON_parses (NumberValidator_min no_coercion 0 Validator_number)
         Validator_array))
     (JArr [JNum 1, JNum 2, JNum 3]) ''name'' ()
     = (Inl (ValidationError (Some ''name'') ''Array must contain no more than 2 items''), ())
 \<and> validate host_JSON_parses
     (ArrayValidator_maxLength 2
       (ArrayValidator_items host_JSON_parses (NumberValidator_min no_coercion 0 Validator_number)
         Validator_array))
     (JArr [JNum 1, JNum 2]) ''name'' ()
     = (Inr (JBool True), ())"
proof -
  let ?iv = "NumberValidator_min no_coercion 0 Validator_number :: unit validator"
  let ?items = "items_rule host_JSON_parses ?iv"
  let ?maxlen = "pure_rule (maxLength_rule 2) :: unit rule"
  let ?v = "ArrayValidator_maxLength 2 (ArrayValidator_items host_JSON_parses ?iv Validator_array)"
  have k: "kind ?v = KArray"
    by (simp add: ArrayValidator_maxLength_def ArrayValidator_items_def push_rule_def
          Validator_array_def)
  have r: "rules ?v = [] @ ?items # [?maxlen]" "rules ?v = [?items] @ ?maxlen # []"
    by (simp_all add: ArrayValidator_maxLength_def ArrayValidator_items_def push_rule_def
          Validator_array_def)
  have i1: "?items (JArr [JNum 1, JNum (- 1), JNum 2]) ''name'' ()
      = (Inl (ValidationError (Some ''name[1]'') ''Value must be greater than or equal to 0''), ())"
    by code_simp
  have i2: "run_rules [?items] (JArr [JNum 1, JNum 2, JNum 3]) ''name'' () = (Inr (), ())"
    by code_simp
  have m2: "?maxlen (JArr [JNum 1, JNum 2, JNum 3]) ''name'' ()
      = (Inl (ValidationError (Some ''name'') ''Array must contain no more than 2 items''), ())"
    by code_simp
  have i3: "run_rules (rules ?v) (JArr [JNum 1, JNum 2]) ''name'' () = (Inr (), ())"
    by code_simp
  from rules_run_in_order[where v = "?v" and val = "JArr [JNum 1, JNum (- 1), JNum 2]"
      and JSON_parses = host_JSON_parses and pre = "[]" and r = "?items" and post = "[?maxlen]"
      and f = "''name''" and s = "()" and sa = "()" and sb = "()"
      and e = "ValidationError (Some ''name[1]'') ''Value must be greater than or equal to 0''"]
    k r(1) i1
  have a: "validate host_JSON_parses ?v (JArr [JNum 1, JNum (- 1), JNum 2]) ''name'' ()
     = (Inl (ValidationError (Some ''name[1]'') ''Value must be greater than or equal to 0''), ())"
    by simp
  from rules_run_in_order[where v = "?v" and val = "JArr [JNum 1, JNum 2, JNum 3]"
      and JSON_parses = host_JSON_parses and pre = "[?items]" and r = "?maxlen" and post = "[]"
      and f = "''name''" and s = "()" and sa = "()" and sb = "()"
      and e = "ValidationError (Some ''name'') ''Array must contain no more than 2 items''"]
    k r(2) i2 m2
  have b: "validate host_JSON_parses ?v (JArr [JNum 1, JNum 2, JNum 3]) ''name'' ()
     = (Inl (ValidationError (Some ''name'') ''Array must contain no more than 2 items''), ())"
    by simp
  from rules_run_in_order[where v = "?v" and val = "JArr [JNum 1, JNum 2]"
      and JSON_parses = host_JSON_parses and f = "''name''" and s = "()" and sc = "()"]
    k i3
  have c: "validate host_JSON_parses ?v (JArr [JNum 1, JNum 2]) ''name'' () = (Inr (JBool True), ())"
    by simp
  from a b c show ?thesis by simp
qed

text \<open>
  The claim as stated fails where the check of the class fails: on
  \<open>boolean().required()\<close> and the string \<open>"true"\<close>, which is not skipped, every rule
  passes, and \<open>validate\<close> fails with \<open>Value must be a boolean\<close>.
\<close>

theorem rules_after_type_check_counterexample:
  "run_rules (rules (required Validator_boolean)) (JStr ''true'') ''f'' () = (Inr (), ())
 \<and> validate host_JSON_parses (required Validator_boolean) (JStr ''true'') ''f'' ()
     = (Inl (ValidationError (Some ''f'') ''Value must be a boolean''), ())"
  by code_simp

text \<open>
  Claim C9. \<open>validate\<close> has two successful returns with different values: it returns
  \<open>undefined\<close> when the value is \<open>undefined\<close> and the validator is not required, and
  \<open>true\<close> when the value is not skipped, passes the check of the class and passes all
  rules.
\<close>

theorem two_success_values:
  "(\<not> isRequired v \<longrightarrow> validate JSON_parses v JUndefined f s = (Inr JUndefined, s))
 \<and> (\<not> (val = JUndefined \<and> \<not> isRequired v)
      \<and> (kind v = KBoolean \<longrightarrow> is_boolean val)
      \<and> (kind v = KJSON \<longrightarrow> JSON_parses val)
      \<and> run_rules (rules v) val f s = (Inr (), sc)
    \<longrightarrow> validate JSON_parses v val f s = (Inr (JBool True), sc))
 \<and> JUndefined \<noteq> JBool True"
proof (intro conjI impI)
  assume "\<not> isRequired v"
  then show "validate JSON_parses v JUndefined f s = (Inr JUndefined, s)"
    by (rule validate_skips)
next
  assume a: "\<not> (val = JUndefined \<and> \<not> isRequired v)
      \<and> (kind v = KBoolean \<longrightarrow> is_boolean val)
      \<and> (kind v = KJSON \<longrightarrow> JSON_parses val)
      \<and> run_rules (rules v) val f s = (Inr (), sc)"
  then show "validate JSON_parses v val f s = (Inr (JBool True), sc)"
    using validate_passed_precheck[of val v JSON_parses f s] by simp
qed simp

text \<open>\<open>string().validate(undefined, 'f')\<close> and \<open>string().validate('x', 'f')\<close>.\<close>

theorem two_success_values_witness:
  "validate host_JSON_parses Validator_string JUndefined ''f'' () = (Inr JUndefined, ())
 \<and> validate host_JSON_parses Validator_string (JStr ''x'') ''f'' () = (Inr (JBool True), ())
 \<and> validate host_JSON_parses Validator_boolean (JBool False) ''f'' () = (Inr (JBool True), ())"
proof -
  have n: "\<not> isRequired (Validator_string :: unit validator)"
    "kind (Validator_string :: unit validator) = KString"
    "rules (Validator_string :: unit validator) = []"
    "kind (Validator_boolean :: unit validator) = KBoolean"
    "rules (Validator_boolean :: unit validator) = []"
    by (simp_all add: Validator_string_def Validator_boolean_def)
  from two_success_values[where v = "Validator_string :: unit validator" and val = "JStr ''x''"
      and JSON_parses = host_JSON_parses and f = "''f''" and s = "()" and sc = "()"] n
  have a: "validate host_JSON_parses Validator_string JUndefined ''f'' () = (Inr JUndefined, ())"
    and b: "validate host_JSON_parses Validator_string (JStr ''x'') ''f'' () = (Inr (JBool True), ())"
    by simp_all
  from two_success_values[where v = "Validator_boolean :: unit validator" and val = "JBool False"
      and JSON_parses = host_JSON_parses and f = "''f''" and s = "()" and sc = "()"] n
  have c: "validate host_JSON_parses Validator_boolean (JBool False) ''f'' () = (Inr (JBool True), ())"
    by simp
  from a b c show ?thesis by simp
qed

subsection \<open>ArrayValidator.items\<close>

text \<open>
  Claim C5, amended. \<open>items(itemValidator)\<close> appends a rule that, on an array, runs
  \<open>itemValidator.validate(element, "<fieldName>[<i>]")\<close> on the elements in order of
  their index \<open>i\<close>. When the elements before one pass and that one fails, the
  validation of the array fails with the field and the message of the nested error,
  unrewritten, and no later element and no later rule is run. When the checks and the
  rules of the item validator throw with the field name they are given, as the type
  check, the parse check, \<open>required\<close>, \<open>min\<close> and \<open>max\<close> do, the reported field
  is \<open><fieldName>[<i>]\<close>. A \<open>TypeError\<close> of the host raised inside the item
  validator has no field, and then the reported field is \<open>undefined\<close>. When all
  elements pass, a validator whose last rule is that of \<open>items\<close> returns \<open>true\<close>.
\<close>

theorem items_first_failure:
  assumes "kind base = KArray"
    and "run_rules (rules base) (JArr xs) field s = (Inr (), sa)"
  shows "rules (ArrayValidator_items P iv base) = rules base @ [items_rule P iv]
       \<and> items_rule P iv (JArr xs) field sa = each_item P iv field 0 xs sa
       \<and> (xs = pre @ x # post
            \<and> each_item P iv field 0 pre sa = (Inr (), sb)
            \<and> validate P iv x (field @ ''['' @ show_nat (length pre) @ '']'') sb = (Inl e, sc)
          \<longrightarrow> validate P (foldl (\<lambda>v r. push_rule r v) (ArrayValidator_items P iv base) later)
                 (JArr xs) field s
                 = (Inl (ValidationError (error_field e) (error_message e)), sc))
       \<and> (xs = pre @ x # post
            \<and> each_item P iv field 0 pre sa = (Inr (), sb)
            \<and> validate P iv x (field @ ''['' @ show_nat (length pre) @ '']'') sb = (Inl e, sc)
            \<and> (\<forall>r \<in> set (rules iv). reports_given_field r)
          \<longrightarrow> validate P (foldl (\<lambda>v r. push_rule r v) (ArrayValidator_items P iv base) later)
                 (JArr xs) field s
                 = (Inl (ValidationError (Some (field @ ''['' @ show_nat (length pre) @ '']''))
                          (error_message e)), sc))
       \<and> error_field (ValidationError nested_field msg) = nested_field
       \<and> error_message (ValidationError nested_field msg) = msg
       \<and> error_field (TypeError msg) = None
       \<and> (each_item P iv field 0 xs sa = (Inr (), sd)
          \<longrightarrow> validate P (ArrayValidator_items P iv base) (JArr xs) field s
                 = (Inr (JBool True), sd))"
proof -
  let ?av = "foldl (\<lambda>v r. push_rule r v) (ArrayValidator_items P iv base) later"
  let ?f = "field @ ''['' @ show_nat (length pre) @ '']''"
  have appended: "rules (ArrayValidator_items P iv base) = rules base @ [items_rule P iv]"
    by (simp add: ArrayValidator_items_def push_rule_def)
  have walk: "items_rule P iv (JArr xs) field sa = each_item P iv field 0 xs sa"
    by (simp add: items_loop_each_item)
  have fails: "validate P ?av (JArr xs) field s
      = (Inl (ValidationError (error_field e) (error_message e)), sc)"
    if split: "xs = pre @ x # post" and before: "each_item P iv field 0 pre sa = (Inr (), sb)"
      and nested: "validate P iv x ?f sb = (Inl e, sc)"
  proof -
    have "each_item P iv field 0 xs sa = (Inl (rethrow e), sc)"
      unfolding split using before nested by (simp add: each_item_append)
    then have item: "items_rule P iv (JArr xs) field sa = (Inl (rethrow e), sc)"
      by (simp add: items_loop_each_item)
    have r: "rules ?av = rules base @ items_rule P iv # later"
      unfolding rules_push_all by (simp add: ArrayValidator_items_def push_rule_def)
    have k: "kind ?av = KArray"
      unfolding kind_push_all using assms(1) by (simp add: ArrayValidator_items_def push_rule_def)
    have "run_rules (rules ?av) (JArr xs) field s = (Inl (rethrow e), sc)"
      unfolding r using assms(2) item by (rule run_rules_stops)
    moreover have "validate P ?av (JArr xs) field s =
       (case run_rules (rules ?av) (JArr xs) field s of
          (Inl e, s') \<Rightarrow> (Inl e, s')
        | (Inr u, s') \<Rightarrow> (Inr (JBool True), s'))"
      using k by (intro validate_passed_precheck) auto
    ultimately show ?thesis by (simp add: rethrow_def)
  qed
  have named: "validate P ?av (JArr xs) field s
      = (Inl (ValidationError (Some ?f) (error_message e)), sc)"
    if split: "xs = pre @ x # post" and before: "each_item P iv field 0 pre sa = (Inr (), sb)"
      and nested: "validate P iv x ?f sb = (Inl e, sc)"
      and own: "\<forall>r \<in> set (rules iv). reports_given_field r"
  proof -
    from validate_error_field[OF own nested] have "error_field e = Some ?f" .
    with fails[OF split before nested] show ?thesis by simp
  qed
  have passes: "validate P (ArrayValidator_items P iv base) (JArr xs) field s
      = (Inr (JBool True), sd)"
    if all: "each_item P iv field 0 xs sa = (Inr (), sd)"
  proof -
    let ?v = "ArrayValidator_items P iv base"
    from all have item: "items_rule P iv (JArr xs) field sa = (Inr (), sd)"
      by (simp add: items_loop_each_item)
    have k: "kind ?v = KArray"
      using assms(1) by (simp add: ArrayValidator_items_def push_rule_def)
    have "run_rules (rules ?v) (JArr xs) field s = (Inr (), sd)"
      unfolding appended using assms(2) item by (simp add: run_rules_append)
    moreover have "validate P ?v (JArr xs) field s =
       (case run_rules (rules ?v) (JArr xs) field s of
          (Inl e, s') \<Rightarrow> (Inl e, s')
        | (Inr u, s') \<Rightarrow> (Inr (JBool True), s'))"
      using k by (intro validate_passed_precheck) auto
    ultimately show ?thesis by simp
  qed
  from appended walk fails named passes show ?thesis by simp
qed

text \<open>
  The example of the specification, \<open>array().items(number().min(0))\<close> on \<open>[1, -1, 2]\<close>,
  with a counting rule on the item validator: the error names \<open>name[1]\<close> and two items
  were visited, not three. On \<open>[1, 0]\<close> all items pass.
\<close>

theorem items_first_failure_witness:
  "validate host_JSON_parses
     (ArrayValidator_items host_JSON_parses
        (NumberValidator_min no_coercion 0 (push_rule counting_rule Validator_number))
        Validator_array)
     (JArr [JNum 1, JNum (- 1), JNum 2]) ''name'' 0
     = (Inl (ValidationError (Some ''name[1]'') ''Value must be greater than or equal to 0''), 2)
 \<and> validate host_JSON_parses
     (ArrayValidator_items host_JSON_parses
        (NumberValidator_min no_coercion 0 (push_rule counting_rule Validator_number))
        Validator_array)
     (JArr [JNum 1, JNum 0]) ''name'' 0
     = (Inr (JBool True), 2)"
proof -
  let ?iv = "NumberValidator_min no_coercion 0 (push_rule counting_rule Validator_number)"
  have k: "kind (Validator_array :: nat validator) = KArray"
    "rules (Validator_array :: nat validator) = []"
    by (simp_all add: Validator_array_def)
  have own: "\<forall>r \<in> set (rules ?iv). reports_given_field r"
    by (simp add: NumberValidator_min_def push_rule_def Validator_number_def
          library_rules_report)
  have p1: "each_item host_JSON_parses ?iv ''name'' 0 [JNum 1] 0 = (Inr (), 1)"
    by code_simp
  have f1: "validate host_JSON_parses ?iv (JNum (- 1)) (''name'' @ ''['' @ show_nat (length [JNum 1]) @ '']'') 1
      = (Inl (ValidationError (Some ''name[1]'') ''Value must be greater than or equal to 0''), 2)"
    by code_simp
  have n1: "''name'' @ ''['' @ show_nat (length [JNum 1]) @ '']'' = ''name[1]''"
    by code_simp
  have p2: "each_item host_JSON_parses ?iv ''name'' 0 [JNum 1, JNum 0] 0 = (Inr (), 2)"
    by code_simp
  have run: "run_rules (rules (Validator_array :: nat validator)) (JArr xs) ''name'' 0 = (Inr (), 0)"
    for xs
    by (simp add: Validator_array_def)
  have split: "[JNum 1, JNum (- 1), JNum 2] = [JNum 1] @ JNum (- 1) # [JNum 2]"
    by simp
  note fails = items_first_failure[where base = "Validator_array :: nat validator"
      and xs = "[JNum 1, JNum (- 1), JNum 2]" and field = "''name''" and s = 0 and sa = 0
      and P = host_JSON_parses and iv = "?iv" and pre = "[JNum 1]" and x = "JNum (- 1)"
      and post = "[JNum 2]" and sb = 1 and sc = 2 and later = "[]"
      and e = "ValidationError (Some ''name[1]'') ''Value must be greater than or equal to 0''",
      OF k(1) run, THEN conjunct2, THEN conjunct2, THEN conjunct2, THEN conjunct1, THEN mp,
      OF conjI[OF split conjI[OF p1 conjI[OF f1 own]]]]
  have a: "validate host_JSON_parses (ArrayValidator_items host_JSON_parses ?iv Validator_array)
     (JArr [JNum 1, JNum (- 1), JNum 2]) ''name'' 0
     = (Inl (ValidationError (Some ''name[1]'') ''Value must be greater than or equal to 0''), 2)"
    using fails unfolding n1 by simp
  note passes = items_first_failure[where base = "Validator_array :: nat validator"
      and xs = "[JNum 1, JNum 0]" and field = "''name''" and s = 0 and sa = 0
      and P = host_JSON_parses and iv = "?iv" and sd = 2,
      OF k(1) run, THEN conjunct2, THEN conjunct2, THEN conjunct2, THEN conjunct2,
      THEN conjunct2, THEN conjunct2, THEN conjunct2, THEN mp, OF p2]
  have b: "validate host_JSON_parses (ArrayValidator_items host_JSON_parses ?iv Validator_array)
     (JArr [JNum 1, JNum 0]) ''name'' 0 = (Inr (JBool True), 2)"
    using passes .
  from a b show ?thesis by simp
qed

text \<open>
  The claim as stated fails when the nested failure is a \<open>TypeError\<close>:
  \<open>array().items(array().minLength(1))\<close> on \<open>[[1], null]\<close> reads \<open>null.length\<close> in
  the rule of the item validator, and the array validation reports that message with the
  field \<open>undefined\<close>, not \<open>f[1]\<close>.
\<close>

theorem items_type_error_counterexample:
  "validate host_JSON_parses
     (ArrayValidator_items host_JSON_parses (ArrayValidator_minLength 1 Validator_array)
        Validator_array)
     (JArr [JArr [JNum 1], JNull]) ''f'' ()
     = (Inl (ValidationError None ''Cannot read properties of null (reading 'length')''), ())"
  by code_simp

subsection \<open>Schema.validate\<close>

text \<open>
  Claim C4. In strict mode, when the record has a key that the schema does not declare,
  \<open>Schema.validate\<close> fails with the first such key in the record's own enumeration
  order as the field and the message \<open>Unexpected field '<key>' not defined in schema\<close>,
  before any validator is invoked: the state of the program is unchanged.
\<close>

theorem strict_rejects_first_extra:
  assumes "only S"
    and "Object_keys data = pre @ x # post"
    and "set pre \<subseteq> set (map fst (schema S))"
    and "x \<notin> set (map fst (schema S))"
  shows "Schema_validate P S data s =
           (Inl (ValidationError (Some x)
                  (''Unexpected field '' @ [CHR 0x27] @ x @ [CHR 0x27] @ '' not defined in schema'')), s)"
proof -
  have "filter (\<lambda>key. key \<notin> set (map fst (schema S))) pre = []"
    using assms(3) by (auto simp: filter_empty_conv)
  then have "filter (\<lambda>key. key \<notin> set (map fst (schema S))) (Object_keys data)
      = x # filter (\<lambda>key. key \<notin> set (map fst (schema S))) post"
    using assms(2,4) by simp
  then show ?thesis
    using assms(1) by (simp add: Schema_validate_def Let_def)
qed

text \<open>
  The example of the specification, \<open>createSchema({a: string()}, true)\<close> on
  \<open>{a: "x", b: 1}\<close>, and the same schema with a counting rule on
  \<open>{a: "x", c: 1, b: 2}\<close>: the field is \<open>c\<close> and the counter stays at 0.
\<close>

theorem strict_rejects_first_extra_witness:
  "Schema_validate host_JSON_parses (Validator_createSchema [(''a'', Validator_string)] True)
     (plain_object [(''a'', JStr ''x''), (''b'', JNum 1)]) ()
     = (Inl (ValidationError (Some ''b'') ''Unexpected field 'b' not defined in schema''), ())
 \<and> Schema_validate host_JSON_parses
     (Validator_createSchema [(''a'', push_rule counting_rule Validator_string)] True)
     (plain_object [(''a'', JStr ''x''), (''c'', JNum 1), (''b'', JNum 2)]) 0
     = (Inl (ValidationError (Some ''c'') ''Unexpected field 'c' not defined in schema''), 0)"
proof -
  have keys: "map fst (schema (Validator_createSchema [(''a'', v)] True)) = [''a'']" for v :: "'a validator"
    by (simp add: Validator_createSchema_def Object_entries_def is_array_index_def)
  have strict: "only (Validator_createSchema [(''a'', v)] True)" for v :: "'a validator"
    by (simp add: Validator_createSchema_def)
  from strict_rejects_first_extra[where S = "Validator_createSchema [(''a'', Validator_string)] True"
      and data = "plain_object [(''a'', JStr ''x''), (''b'', JNum 1)]" and pre = "[''a'']"
      and x = "''b''" and post = "[]" and P = host_JSON_parses and s = "()"]
  have a: "Schema_validate host_JSON_parses (Validator_createSchema [(''a'', Validator_string)] True)
     (plain_object [(''a'', JStr ''x''), (''b'', JNum 1)]) ()
     = (Inl (ValidationError (Some ''b'') ''Unexpected field 'b' not defined in schema''), ())"
    by (simp add: keys strict Object_keys_def plain_object_def)
  from strict_rejects_first_extra[where
      S = "Validator_createSchema [(''a'', push_rule counting_rule Validator_string)] True"
      and data = "plain_object [(''a'', JStr ''x''), (''c'', JNum 1), (''b'', JNum 2)]"
      and pre = "[''a'']" and x = "''c''" and post = "[''b'']" and P = host_JSON_parses and s = 0]
  have b: "Schema_validate host_JSON_parses
     (Validator_createSchema [(''a'', push_rule counting_rule Validator_string)] True)
     (plain_object [(''a'', JStr ''x''), (''c'', JNum 1), (''b'', JNum 2)]) 0
     = (Inl (ValidationError (Some ''c'') ''Unexpected field 'c' not defined in schema''), 0)"
    by (simp add: keys strict Object_keys_def plain_object_def)
  from a b show ?thesis by simp
qed

text \<open>
  Claim C3, amended. The entries of the schema are in the order of
  \<open>Object.entries\<close>: the declaration order when no declared key is an array index,
  array indices first otherwise. Let the strict check not fail, and let every declared key
  that \<open>key in record\<close> finds be an own enumerable property of the record.
  \<open>Schema.validate\<close> first looks, over the entries in their order, for a field that is
  absent from the record and whose validator is required, and fails with that field name
  and \<open>Field is required\<close> before any validator is invoked (the state of the program
  is unchanged). When there is none, it invokes the validators of the declared fields that
  are present, in the order of the entries, each on the record's value and the field
  name; the first failure is the result and the validators of the later fields are not
  invoked.
\<close>

theorem schema_required_then_fields:
  assumes "distinct (map fst (schema S))"
    and "only S \<longrightarrow> set (Object_keys data) \<subseteq> set (map fst (schema S))"
    and "\<forall>k \<in> set (map fst (schema S)). key_in k data \<longrightarrow> k \<in> set (Object_keys data)"
  shows "schema (Validator_createSchema declared strict) = Object_entries declared
       \<and> (list_all (\<lambda>(k, v). \<not> is_array_index k) declared
            \<longrightarrow> schema (Validator_createSchema declared strict) = declared)
       \<and> (find (\<lambda>(k, v). k \<notin> set (Object_keys data) \<and> isRequired v) (schema S)
              = Some (key, validator)
            \<longrightarrow> Schema_validate P S data s =
                  (Inl (ValidationError (Some key) ''Field is required''), s))
       \<and> (find (\<lambda>(k, v). k \<notin> set (Object_keys data) \<and> isRequired v) (schema S) = None
            \<longrightarrow> Schema_validate P S data s =
                  (case validate_present P (schema S) data s of
                     (Inl e, s') \<Rightarrow> (Inl e, s')
                   | (Inr u, s') \<Rightarrow> (Inr ''Validation successful'', s')))
       \<and> (find (\<lambda>(k, v). k \<notin> set (Object_keys data) \<and> isRequired v) (schema S) = None
            \<and> schema S = pre @ (key, validator) # post
            \<and> validate_present P pre data s = (Inr (), sa)
            \<and> key \<in> set (Object_keys data)
            \<and> validate P validator (get_property data key) key sa = (Inl e, sb)
            \<longrightarrow> Schema_validate P S data s = (Inl e, sb))"
proof -
  let ?absent = "find (\<lambda>(k, v). k \<notin> set (Object_keys data) \<and> isRequired v) (schema S)"
  have own_in: "k \<in> set (Object_keys data) \<Longrightarrow> key_in k data" for k
    by (simp add: key_in_def Object_keys_def)
  have same: "find (\<lambda>(k, v). \<not> key_in k data \<and> isRequired v) (schema S) = ?absent"
  proof (rule find_cong[OF refl])
    fix kv assume "kv \<in> set (schema S)"
    then have "fst kv \<in> set (map fst (schema S))" by simp
    with assms(3) own_in[of "fst kv"]
    have "key_in (fst kv) data \<longleftrightarrow> fst kv \<in> set (Object_keys data)" by blast
    then show "(case kv of (k, v) \<Rightarrow> \<not> key_in k data \<and> isRequired v)
        = (case kv of (k, v) \<Rightarrow> k \<notin> set (Object_keys data) \<and> isRequired v)"
      by (cases kv) simp
  qed
  have entries: "schema (Validator_createSchema declared strict) = Object_entries declared"
    by (simp add: Validator_createSchema_def)
  have declared: "schema (Validator_createSchema declared strict) = declared"
    if "list_all (\<lambda>(k, v). \<not> is_array_index k) declared"
    using that by (simp add: Validator_createSchema_def Object_entries_no_index)
  have fields: "Schema_validate P S data s =
      (case validate_present P (schema S) data s of
         (Inl e, s') \<Rightarrow> (Inl e, s')
       | (Inr u, s') \<Rightarrow> (Inr ''Validation successful'', s'))" if "?absent = None"
    using that
    by (simp add: Schema_validate_after_strict[OF assms(2)] check_required_find same
          validate_fields_present[OF assms(1)])
  have first: "Schema_validate P S data s =
      (Inl (ValidationError (Some key) ''Field is required''), s)"
    if "?absent = Some (key, validator)"
    using that
    by (simp add: Schema_validate_after_strict[OF assms(2)] check_required_find same)
  have abort: "Schema_validate P S data s = (Inl e, sb)"
    if none: "?absent = None" and split: "schema S = pre @ (key, validator) # post"
      and before: "validate_present P pre data s = (Inr (), sa)"
      and present: "key \<in> set (Object_keys data)"
      and fails: "validate P validator (get_property data key) key sa = (Inl e, sb)"
  proof -
    have "validate_present P (schema S) data s = (Inl e, sb)"
      unfolding split using before own_in[OF present] fails
      by (simp add: validate_present_append)
    with fields[OF none] show ?thesis by simp
  qed
  from entries declared fields first abort show ?thesis by blast
qed

text \<open>
  The schema \<open>{name: string().required(), age: number().min(0), email: string().required()}\<close>,
  each validator with a counting rule, on object literals. On \<open>{age: -1}\<close> the absent
  \<open>name\<close> is reported and the counter stays at 0, although \<open>age\<close> is invalid and
  \<open>email\<close> is absent too. On \<open>{name: "Al", age: -1, email: ""}\<close> the error of
  \<open>age\<close> is reported and the counter is 2: the rules of \<open>name\<close> and of \<open>age\<close> ran,
  those of \<open>email\<close> did not. On \<open>{name: "Al", age: 30, email: "a@b.co"}\<close> the
  validation succeeds. The entries of \<open>{b: ..., 10: ..., 9: ...}\<close> are in the order
  \<open>9\<close>, \<open>10\<close>, \<open>b\<close>.
\<close>

theorem schema_required_then_fields_witness:
  "Schema_validate host_JSON_parses
     (Validator_createSchema
        [(''name'', required (push_rule counting_rule Validator_string)),
         (''age'', NumberValidator_min no_coercion 0 (push_rule counting_rule Validator_number)),
         (''email'', required (push_rule counting_rule Validator_string))] False)
     (plain_object [(''age'', JNum (- 1))]) 0
     = (Inl (ValidationError (Some ''name'') ''Field is required''), 0)
 \<and> Schema_validate host_JSON_parses
     (Validator_createSchema
        [(''name'', required (push_rule counting_rule Validator_string)),
         (''age'', NumberValidator_min no_coercion 0 (push_rule counting_rule Validator_number)),
         (''email'', required (push_rule counting_rule Validator_string))] False)
     (plain_object [(''name'', JStr ''Al''), (''age'', JNum (- 1)), (''email'', JStr '''')]) 0
     = (Inl (ValidationError (Some ''age'') ''Value must be greater than or equal to 0''), 2)
 \<and> Schema_validate host_JSON_parses
     (Validator_createSchema
        [(''name'', required (push_rule counting_rule Validator_string)),
         (''age'', NumberValidator_min no_coercion 0 (push_rule counting_rule Validator_number)),
         (''email'', required (push_rule counting_rule Validator_string))] False)
     (plain_object [(''name'', JStr ''Al''), (''age'', JNum 30), (''email'', JStr ''a@b.co'')]) 0
     = (Inr ''Validation successful'', 3)
 \<and> schema (Validator_createSchema
        [(''b'', Validator_number), (''10'', Validator_string), (''9'', Validator_boolean)] False)
     = [(''9'', Validator_boolean), (''10'', Validator_string), (''b'', Validator_number :: nat validator)]"
proof -
  let ?name = "required (push_rule counting_rule Validator_string)"
  let ?age = "NumberValidator_min no_coercion 0 (push_rule counting_rule Validator_number)"
  let ?def = "[(''name'', ?name), (''age'', ?age), (''email'', ?name)]"
  let ?S = "Validator_createSchema ?def False"
  let ?d1 = "plain_object [(''age'', JNum (- 1))]"
  let ?d2 = "plain_object [(''name'', JStr ''Al''), (''age'', JNum (- 1)), (''email'', JStr '''')]"
  let ?d3 = "plain_object [(''name'', JStr ''Al''), (''age'', JNum 30), (''email'', JStr ''a@b.co'')]"
  have no_index: "list_all (\<lambda>(k, v). \<not> is_array_index k) ?def"
    by (simp add: is_array_index_def)
  have sch: "schema ?S = ?def"
    by (simp add: Validator_createSchema_def Object_entries_no_index[OF no_index])
  have sch_split: "schema ?S = [(''name'', ?name)] @ (''age'', ?age) # [(''email'', ?name)]"
    by (simp add: sch)
  have d: "distinct (map fst (schema ?S))"
    by (simp add: sch)
  have strict: "only ?S \<longrightarrow> set (Object_keys data) \<subseteq> set (map fst (schema ?S))" for data
    by (simp add: Validator_createSchema_def)
  have own_only: "\<forall>k \<in> set (map fst (schema ?S)). key_in k (plain_object ps) \<longrightarrow>
      k \<in> set (Object_keys (plain_object ps))" for ps
    by (simp add: sch key_in_def Object_keys_def plain_object_def Object_prototype_def native_def)
  have req: "isRequired ?name" "\<not> isRequired ?age"
    by (simp_all add: required_def push_rule_def NumberValidator_min_def Validator_number_def)
  have m1: "find (\<lambda>(k, v). k \<notin> set (Object_keys ?d1) \<and> isRequired v) (schema ?S)
      = Some (''name'', ?name)"
    unfolding sch using req by (simp add: Object_keys_def plain_object_def)
  have m2: "find (\<lambda>(k, v). k \<notin> set (Object_keys ?d2) \<and> isRequired v) (schema ?S) = None"
    unfolding sch using req by (simp add: Object_keys_def plain_object_def)
  have m3: "find (\<lambda>(k, v). k \<notin> set (Object_keys ?d3) \<and> isRequired v) (schema ?S) = None"
    unfolding sch using req by (simp add: Object_keys_def plain_object_def)
  have pre2: "validate_present host_JSON_parses [(''name'', ?name)] ?d2 0 = (Inr (), 1)"
    by code_simp
  have in2: "''age'' \<in> set (Object_keys ?d2)"
    by (simp add: Object_keys_def plain_object_def)
  have fail2: "validate host_JSON_parses ?age (get_property ?d2 ''age'') ''age'' 1
      = (Inl (ValidationError (Some ''age'') ''Value must be greater than or equal to 0''), 2)"
    by code_simp
  have all3: "validate_present host_JSON_parses ?def ?d3 0 = (Inr (), 3)"
    by code_simp
  note T1 = schema_required_then_fields[OF d strict own_only, where P = host_JSON_parses
      and s = 0 and key = "''name''" and validator = "?name",
      THEN conjunct2, THEN conjunct2, THEN conjunct1, THEN mp, OF m1]
  note T2 = schema_required_then_fields[OF d strict own_only, where P = host_JSON_parses
      and s = 0 and key = "''age''" and validator = "?age" and pre = "[(''name'', ?name)]"
      and post = "[(''email'', ?name)]" and sa = 1 and sb = 2
      and e = "ValidationError (Some ''age'') ''Value must be greater than or equal to 0''",
      THEN conjunct2, THEN conjunct2, THEN conjunct2, THEN conjunct2, THEN mp,
      OF conjI[OF m2 conjI[OF sch_split conjI[OF pre2 conjI[OF in2 fail2]]]]]
  note T3 = schema_required_then_fields[OF d strict own_only, where P = host_JSON_parses
      and s = 0, THEN conjunct2, THEN conjunct2, THEN conjunct2, THEN conjunct1, THEN mp, OF m3]
  have c: "Schema_validate host_JSON_parses ?S ?d3 0 = (Inr ''Validation successful'', 3)"
    using T3 all3 by (simp add: sch)
  have sorted: "Object_entries
        [(''b'', Validator_number), (''10'', Validator_string), (''9'', Validator_boolean)]
     = [(''9'', Validator_boolean), (''10'', Validator_string), (''b'', Validator_number :: nat validator)]"
    by (simp add: Object_entries_def is_array_index_def numeral_value_def digit_value_def)
  note T4 = schema_required_then_fields[OF d strict own_only, where strict = False
      and declared = "[(''b'', Validator_number), (''10'', Validator_string),
                         (''9'', Validator_boolean :: nat validator)]",
      THEN conjunct1]
  have o: "schema (Validator_createSchema
        [(''b'', Validator_number), (''10'', Validator_string), (''9'', Validator_boolean)] False)
     = [(''9'', Validator_boolean), (''10'', Validator_string), (''b'', Validator_number :: nat validator)]"
    using T4 sorted by simp
  from T1 T2 c o show ?thesis by simp
qed

text \<open>
  The claim as stated fails in two ways. A declared key that the record only inherits is
  not absent for \<open>key in data\<close>: for the schema \<open>{toString: string().required()}\<close> the
  record \<open>{}\<close>, which has no property of its own, passes, the validator being run on
  the inherited function. And the entries are not in declaration order when a declared key
  is an array index: for \<open>{b: number().required(), 1: number().required()}\<close> and the
  record \<open>{}\<close> the field reported is \<open>1\<close>, not \<open>b\<close>.
\<close>

theorem schema_absent_field_counterexample:
  "Object_keys (plain_object []) = []
 \<and> Schema_validate host_JSON_parses
     (Validator_createSchema [(''toString'', required Validator_string)] False)
     (plain_object []) ()
     = (Inr ''Validation successful'', ())
 \<and> Schema_validate host_JSON_parses
     (Validator_createSchema
        [(''b'', required Validator_number), (''1'', required Validator_number)] False)
     (plain_object []) ()
     = (Inl (ValidationError (Some ''1'') ''Field is required''), ())"
  by code_simp

text \<open>
  Claim C10. In non-strict mode, two records that agree on every key the schema declares
  (\<open>key in record\<close> and \<open>record[key]\<close> are the same for both) get the same result
  from \<open>Schema.validate\<close>, and the same effects: the other keys are never looked at.
\<close>

theorem undeclared_keys_ignored:
  assumes "\<not> only S"
    and "\<forall>k \<in> set (map fst (schema S)).
           key_in k da = key_in k db \<and> get_property da k = get_property db k"
  shows "Schema_validate P S da s = Schema_validate P S db s"
proof -
  have "check_required (schema S) da = check_required (schema S) db"
    using assms(2) by (intro check_required_cong) simp
  moreover have "validate_fields P (schema S) (map fst (schema S)) da s
      = validate_fields P (schema S) (map fst (schema S)) db s"
    using assms(2) by (intro validate_fields_cong) simp
  ultimately show ?thesis
    using assms(1) by (simp add: Schema_validate_def Let_def cong: sum.case_cong)
qed

text \<open>
  \<open>createSchema({a: string().required(), n: number().min(0)})\<close> on
  \<open>{a: "x", b: 1}\<close> and on \<open>{zz: null, a: "x", c: [true]}\<close>, which agree on \<open>a\<close>
  and both lack \<open>n\<close>: both succeed.
\<close>

theorem undeclared_keys_ignored_witness:
  "Schema_validate host_JSON_parses
     (Validator_createSchema
        [(''a'', required Validator_string),
         (''n'', NumberValidator_min no_coercion 0 Validator_number)] False)
     (plain_object [(''a'', JStr ''x''), (''b'', JNum 1)]) ()
   = Schema_validate host_JSON_parses
     (Validator_createSchema
        [(''a'', required Validator_string),
         (''n'', NumberValidator_min no_coercion 0 Validator_number)] False)
     (plain_object [(''zz'', JNull), (''a'', JStr ''x''), (''c'', JArr [JBool True])]) ()
 \<and> Schema_validate host_JSON_parses
     (Validator_createSchema
        [(''a'', required Validator_string),
         (''n'', NumberValidator_min no_coercion 0 Validator_number)] False)
     (plain_object [(''a'', JStr ''x''), (''b'', JNum 1)]) ()
   = (Inr ''Validation successful'', ())"
proof -
  let ?def = "[(''a'', required Validator_string),
         (''n'', NumberValidator_min no_coercion 0 Validator_number)]
       :: (string \<times> unit validator) list"
  let ?S = "Validator_createSchema ?def False"
  let ?da = "plain_object [(''a'', JStr ''x''), (''b'', JNum 1)]"
  let ?db = "plain_object [(''zz'', JNull), (''a'', JStr ''x''), (''c'', JArr [JBool True])]"
  have n: "\<not> only ?S" by (simp add: Validator_createSchema_def)
  have no_index: "list_all (\<lambda>(k, v). \<not> is_array_index k) ?def"
    by (simp add: is_array_index_def)
  have sch: "schema ?S = ?def"
    by (simp add: Validator_createSchema_def Object_entries_no_index[OF no_index])
  have agree: "\<forall>k \<in> set (map fst (schema ?S)).
      key_in k ?da = key_in k ?db \<and> get_property ?da k = get_property ?db k"
    by (simp add: sch key_in_def get_property_def plain_object_def Object_prototype_def
          native_def)
  have ok: "Schema_validate host_JSON_parses ?S ?da () = (Inr ''Validation successful'', ())"
    by code_simp
  from undeclared_keys_ignored[OF n agree, of host_JSON_parses "()"] ok
  show ?thesis by simp
qed

end
